theory Spec2Isabelle
  imports Main
begin

section \<open>Table pull logic (sdk/src/sync/pull.js)\<close>

text \<open>
  A shallow embedding of \<^verbatim>\<open>createPullManager\<close>. The closure variables of the pull
  manager and the observable state of its collaborators are one record that every
  function takes and returns; a rejected promise or a thrown \<^verbatim>\<open>Error\<close> is the
  \<open>Inl\<close> branch of a sum. The collaborators (remote table, local store, operation table
  manager) are not part of the file: the calls made to them are logged, and their answers
  are parameters. A call to a collaborator is taken to be fulfilled: a transport or
  storage error would reject the pull at that call.
\<close>

subsection \<open>JavaScript values, records, queries\<close>

text \<open>
  A \<^verbatim>\<open>Date\<close> object is represented by its time value (\<^verbatim>\<open>getTime()\<close>, milliseconds
  since the epoch). Numbers are the integers: the code only counts records and compares
  page sizes.
\<close>

type_synonym jsdate = int

datatype jsval = Undefined | Null | Bool bool | Num int | Str string | DateVal jsdate

text \<open>A row read from the server table: the three properties the pull logic looks at.\<close>

record pulled_record =
  rec_id :: jsval
  deleted :: jsval
  updatedAt :: jsval

text \<open>
  The components of an azure-query-js \<^verbatim>\<open>Query\<close> (\<^verbatim>\<open>getComponents()\<close>). The library is
  not part of the repository; the fields are the ones the pull logic reads and writes.
  A filter is the caller's own expression (opaque, numbered), the clause added by
  \<^verbatim>\<open>where(function (lastKnownUpdatedAt) { return this.updatedAt >= lastKnownUpdatedAt; })\<close>,
  or a conjunction. \<open>None\<close> is JavaScript's \<^verbatim>\<open>null\<close>.
\<close>

datatype filter = CallerFilter nat | UpdatedAtGe jsdate | And filter filter

record query =
  table :: string
  filters :: "filter option"
  ordering :: "(string \<times> bool) list"
  skip :: "int option"
  take :: "int option"
  selections :: "string list"
  includeTotalCount :: bool

datatype feature = OfflineSync | IncrementalPull

datatype pending_op = PendingOp jsval

record checkpoint_row =
  cp_id :: string
  cp_tableName :: string
  cp_value :: jsdate

text \<open>
  The calls issued to the collaborators, in order, each with the answer it got where the
  code uses the answer: \<^verbatim>\<open>store.lookup(pulltimeTableName, id, true)\<close>,
  \<^verbatim>\<open>mobileServiceTable.read(queryString, params)\<close> with the page it returned,
  \<^verbatim>\<open>operationTableManager.readPagePendingOperations(tableName, records)\<close> with the
  pending operations it returned, \<^verbatim>\<open>store.del(tableName, idsToDelete)\<close>,
  \<^verbatim>\<open>store.upsert(tableName, recordsToUpdate)\<close> and
  \<^verbatim>\<open>store.upsert(pulltimeTableName, {id, tableName, value})\<close>.
\<close>

datatype call =
    Lookup string
  | Read query "pulled_record list"
  | ReadPagePendingOperations string "pulled_record list" "pending_op list"
  | Del string "jsval list"
  | Upsert string "pulled_record list"
  | UpsertPulltime checkpoint_row

datatype error =
    OrderByNotSupported
  | SkipNotSupported
  | TakeNotSupported
  | SelectNotSupported
  | IncludeTotalCountNotSupported
  | InvalidPageSize
  | InvalidId
  | DeletedFlagMissing
  | LastRecordNull
  | UpdatedAtNotDate

text \<open>
  The closure variables of \<^verbatim>\<open>createPullManager\<close> (\<open>pageSize\<close> to \<open>pullQueryId\<close>,
  \<open>features\<close> for \<^verbatim>\<open>mobileServiceTable._features\<close>), the rows of the pull-time table of
  the local store, and the log of calls.
\<close>

record pull_state =
  pageSize :: int
  lastKnownUpdatedAt :: jsdate
  tablePullQuery :: query
  pagePullQuery :: query
  pullQueryId :: "string option"
  features :: "feature list"
  pulltime :: "string \<rightharpoonup> checkpoint_row"
  calls :: "call list"

text \<open>
  What the collaborators answer. An answer may depend on everything the pull manager has
  done so far (the log), so a server whose data changes between two fetches is covered.
  \<open>localTZA\<close> is the offset of local time from UTC, in milliseconds, that the JavaScript
  runtime applies to \<^verbatim>\<open>new Date(1970, 0, 0)\<close>.
\<close>

record env =
  remoteRead :: "call list \<Rightarrow> query \<Rightarrow> pulled_record list"
  readPagePendingOperations :: "call list \<Rightarrow> string \<Rightarrow> pulled_record list \<Rightarrow> pending_op list"
  localTZA :: int

record pull_settings =
  pageSize_setting :: jsval

definition defaultPageSize :: int where
  "defaultPageSize = 50"

definition updatedAtColumnName :: string where
  "updatedAtColumnName = ''updatedAt''"

subsection \<open>Helpers of the repository and of azure-query-js that the file calls\<close>

text \<open>JavaScript truthiness of a string-or-null and of a number-or-null.\<close>

definition truthy_str :: "string option \<Rightarrow> bool" where
  "truthy_str s = (case s of None \<Rightarrow> False | Some x \<Rightarrow> x \<noteq> [])"

definition truthy_num :: "int option \<Rightarrow> bool" where
  "truthy_num n = (case n of None \<Rightarrow> False | Some x \<Rightarrow> x \<noteq> 0)"

text \<open>\<^verbatim>\<open>null + n\<close> is \<^verbatim>\<open>n\<close>: \<^verbatim>\<open>null\<close> converts to the number 0.\<close>

definition toNumber :: "int option \<Rightarrow> int" where
  "toNumber n = (case n of None \<Rightarrow> 0 | Some x \<Rightarrow> x)"

text \<open>
  Modelled from the spec: \<^verbatim>\<open>_.isNull\<close> of Utilities/Extensions (absent: \<^verbatim>\<open>null\<close> or
  \<^verbatim>\<open>undefined\<close>).
\<close>

definition isNull :: "jsval \<Rightarrow> bool" where
  "isNull v = (v = Null \<or> v = Undefined)"

text \<open>Modelled from the spec: \<^verbatim>\<open>_.isInteger\<close> of Utilities/Extensions.\<close>

definition isInteger :: "jsval \<Rightarrow> bool" where
  "isInteger v = (case v of Num n \<Rightarrow> True | _ \<Rightarrow> False)"

text \<open>
  Modelled from the spec: the azure-query-js operations \<^verbatim>\<open>where\<close>, \<^verbatim>\<open>orderBy\<close>,
  \<^verbatim>\<open>skip\<close>, \<^verbatim>\<open>take\<close>. \<^verbatim>\<open>where\<close> conjoins the clause with the filter there is;
  \<^verbatim>\<open>orderBy\<close> orders by the property, ascending.
\<close>

definition where_q :: "filter \<Rightarrow> query \<Rightarrow> query" where
  "where_q f q = q\<lparr>filters := Some (case filters q of None \<Rightarrow> f | Some g \<Rightarrow> And g f)\<rparr>"

definition orderBy :: "string \<Rightarrow> query \<Rightarrow> query" where
  "orderBy p q = q\<lparr>ordering := [x \<leftarrow> ordering q. fst x \<noteq> p] @ [(p, True)]\<rparr>"

definition skip_q :: "int \<Rightarrow> query \<Rightarrow> query" where
  "skip_q n q = q\<lparr>skip := Some n\<rparr>"

definition take_q :: "int \<Rightarrow> query \<Rightarrow> query" where
  "take_q n q = q\<lparr>take := Some n\<rparr>"

text \<open>\<^verbatim>\<open>copyQuery\<close>: a new \<^verbatim>\<open>Query\<close> on the same table with the same components.\<close>

definition copyQuery :: "query \<Rightarrow> query" where
  "copyQuery q =
     \<lparr>table = table q, filters = filters q, ordering = ordering q, skip = skip q,
      take = take q, selections = selections q, includeTotalCount = includeTotalCount q\<rparr>"

subsection \<open>The functions of the pull manager\<close>

text \<open>
  \<^verbatim>\<open>validateQuery\<close>. The argument is a query object, so \<^verbatim>\<open>Validate.isObject\<close> and
  \<^verbatim>\<open>Validate.notNull\<close> pass. The checks are in the order of the source.
\<close>

definition validateQuery :: "query \<Rightarrow> error + unit" where
  "validateQuery q =
     (if ordering q \<noteq> [] then Inl OrderByNotSupported
      else if truthy_num (skip q) then Inl SkipNotSupported
      else if truthy_num (take q) then Inl TakeNotSupported
      else if selections q \<noteq> [] then Inl SelectNotSupported
      else if includeTotalCount q then Inl IncludeTotalCountNotSupported
      else Inr ())"

text \<open>\<^verbatim>\<open>buildQueryFromLastKnownUpdateAt\<close>.\<close>

definition buildQueryFromLastKnownUpdateAt :: "jsdate \<Rightarrow> pull_state \<Rightarrow> pull_state" where
  "buildQueryFromLastKnownUpdateAt upd st =
     st\<lparr>lastKnownUpdatedAt := upd,
        pagePullQuery :=
          take_q (pageSize st)
            (orderBy updatedAtColumnName
              (where_q (UpdatedAtGe upd) (copyQuery (tablePullQuery st))))\<rparr>"

text \<open>
  \<^verbatim>\<open>getLastKnownUpdatedAt\<close>. The store is asked only when \<^verbatim>\<open>pullQueryId\<close> is truthy;
  without a row the answer is \<^verbatim>\<open>new Date(1970, 0, 0)\<close>: day 0 of January 1970 in local
  time, which is midnight of 31 December 1969, local time.
\<close>

definition date_1970_0_0 :: "env \<Rightarrow> jsdate" where
  "date_1970_0_0 env = - 86400000 - localTZA env"

definition getLastKnownUpdatedAt :: "env \<Rightarrow> pull_state \<Rightarrow> jsdate \<times> pull_state" where
  "getLastKnownUpdatedAt env st =
     (case pullQueryId st of
        Some qid \<Rightarrow>
          (if qid \<noteq> [] then
             (let st1 = st\<lparr>calls := calls st @ [Lookup qid]\<rparr>
              in case pulltime st qid of
                   Some row \<Rightarrow> (cp_value row, st1)
                 | None \<Rightarrow> (date_1970_0_0 env, st1))
           else (date_1970_0_0 env, st))
      | None \<Rightarrow> (date_1970_0_0 env, st))"

text \<open>\<^verbatim>\<open>setupQuery\<close>.\<close>

definition setupQuery :: "env \<Rightarrow> pull_state \<Rightarrow> pull_state" where
  "setupQuery env st =
     (case getLastKnownUpdatedAt env st of
        (upd, st1) \<Rightarrow> buildQueryFromLastKnownUpdateAt upd st1)"

text \<open>\<^verbatim>\<open>isPullComplete\<close>.\<close>

definition isPullComplete :: "pulled_record list \<Rightarrow> bool" where
  "isPullComplete pulledRecords = (length pulledRecords = 0)"

text \<open>
  The loop of \<^verbatim>\<open>processAllRecords\<close> over the records of the page. The two arrays are
  \<^verbatim>\<open>idsToDelete\<close> and \<^verbatim>\<open>recordsToUpdate\<close>; a \<^verbatim>\<open>throw\<close> rejects the chain, after
  which nothing reads them.
\<close>

fun processRecordsLoop ::
  "pending_op list \<Rightarrow> pulled_record list \<Rightarrow> jsval list \<Rightarrow> pulled_record list
     \<Rightarrow> error + (jsval list \<times> pulled_record list)" where
  "processRecordsLoop pendingOperations [] idsToDelete recordsToUpdate =
     Inr (idsToDelete, recordsToUpdate)"
| "processRecordsLoop pendingOperations (r # rs) idsToDelete recordsToUpdate =
     (if length pendingOperations = 0 then
        (if deleted r = Bool True then
           processRecordsLoop pendingOperations rs (idsToDelete @ [rec_id r]) recordsToUpdate
         else if deleted r = Bool False then
           processRecordsLoop pendingOperations rs idsToDelete (recordsToUpdate @ [r])
         else Inl DeletedFlagMissing)
      else processRecordsLoop pendingOperations rs idsToDelete recordsToUpdate)"

text \<open>
  \<^verbatim>\<open>processAllRecords\<close>: one question to the operation table manager for the whole page,
  then the loop.
\<close>

definition processAllRecords ::
  "env \<Rightarrow> string \<Rightarrow> pulled_record list \<Rightarrow> jsval list \<Rightarrow> pulled_record list \<Rightarrow> pull_state
     \<Rightarrow> (error + (jsval list \<times> pulled_record list)) \<times> pull_state" where
  "processAllRecords env tableName records idsToDelete recordsToUpdate st =
     (let pendingOperations = readPagePendingOperations env (calls st) tableName records;
          st1 = st\<lparr>calls := calls st @ [ReadPagePendingOperations tableName records pendingOperations]\<rparr>
      in (processRecordsLoop pendingOperations records idsToDelete recordsToUpdate, st1))"

text \<open>
  \<^verbatim>\<open>processSingleRecord\<close>, which no function of the file calls any more. The pending
  operations of the record and \<^verbatim>\<open>_.isValidId\<close> (Utilities/Extensions, not among the
  sources) are parameters.
\<close>

definition processSingleRecord ::
  "(jsval \<Rightarrow> bool) \<Rightarrow> pending_op list \<Rightarrow> pulled_record \<Rightarrow> jsval list \<Rightarrow> pulled_record list
     \<Rightarrow> error + (jsval list \<times> pulled_record list)" where
  "processSingleRecord isValidId pendingOperations r idsToDelete recordsToUpdate =
     (if \<not> isValidId (rec_id r) then Inl InvalidId
      else if length pendingOperations = 0 then
        (if deleted r = Bool True then Inr (idsToDelete @ [rec_id r], recordsToUpdate)
         else if deleted r = Bool False then Inr (idsToDelete, recordsToUpdate @ [r])
         else Inl DeletedFlagMissing)
      else Inr (idsToDelete, recordsToUpdate))"

text \<open>
  \<^verbatim>\<open>processPulledRecords\<close>. The server answers with an array, so the
  \<^verbatim>\<open>Array.isArray\<close> branch is not taken. \<^verbatim>\<open>store.del\<close> and then \<^verbatim>\<open>store.upsert\<close>
  are called when the chain of \<^verbatim>\<open>processAllRecords\<close> is fulfilled, with whatever the two
  arrays hold.
\<close>

definition processPulledRecords ::
  "env \<Rightarrow> string \<Rightarrow> pulled_record list \<Rightarrow> pull_state \<Rightarrow> (error + unit) \<times> pull_state" where
  "processPulledRecords env tableName pulledRecords st =
     (case processAllRecords env tableName pulledRecords [] [] st of
        (Inl e, st1) \<Rightarrow> (Inl e, st1)
      | (Inr (idsToDelete, recordsToUpdate), st1) \<Rightarrow>
          (Inr (), st1\<lparr>calls := calls st1 @ [Del tableName idsToDelete, Upsert tableName recordsToUpdate]\<rparr>))"

text \<open>\<^verbatim>\<open>onPagePulled\<close>.\<close>

definition onPagePulled :: "pull_state \<Rightarrow> pull_state" where
  "onPagePulled st =
     (case pullQueryId st of
        Some qid \<Rightarrow>
          (if qid \<noteq> [] then
             (let row = \<lparr>cp_id = qid, cp_tableName = table (pagePullQuery st),
                         cp_value = lastKnownUpdatedAt st\<rparr>
              in st\<lparr>pulltime := (pulltime st)(qid \<mapsto> row),
                    calls := calls st @ [UpsertPulltime row]\<rparr>)
           else st)
      | None \<Rightarrow> st)"

text \<open>
  \<^verbatim>\<open>pullPage\<close>. The conversion of the page query to an OData string is left out: the
  server is asked with the query itself.
\<close>

definition pullPage :: "env \<Rightarrow> pull_state \<Rightarrow> (error + pulled_record list) \<times> pull_state" where
  "pullPage env st =
     (let tableName = table (pagePullQuery st);
          pulledRecords = remoteRead env (calls st) (pagePullQuery st);
          st1 = st\<lparr>calls := calls st @ [Read (pagePullQuery st) pulledRecords]\<rparr>
      in case processPulledRecords env tableName pulledRecords st1 of
           (Inl e, st2) \<Rightarrow> (Inl e, st2)
         | (Inr u, st2) \<Rightarrow> (Inr pulledRecords, onPagePulled st2))"

text \<open>
  \<^verbatim>\<open>updateQueryForNextPage\<close>. An array is never falsy, so the first \<^verbatim>\<open>throw\<close> is not
  modelled; \<^verbatim>\<open>pulledRecords[pulledRecords.length - 1]\<close> of an empty array is
  \<^verbatim>\<open>undefined\<close>, which the second \<^verbatim>\<open>throw\<close> rejects.
  Modelled from the spec: \<^verbatim>\<open>_.isDate\<close> of Utilities/Extensions, which is not among the
  sources, holds of a well-formed timestamp (a \<open>DateVal\<close>) and of no other value; it is
  the case distinction on the \<^verbatim>\<open>updatedAt\<close> property.
\<close>

definition updateQueryForNextPage ::
  "pulled_record list \<Rightarrow> pull_state \<Rightarrow> (error + unit) \<times> pull_state" where
  "updateQueryForNextPage pulledRecords st =
     (if pulledRecords = [] then (Inl LastRecordNull, st)
      else
        (case updatedAt (last pulledRecords) of
           DateVal lastRecordTime \<Rightarrow>
             (if lastRecordTime = lastKnownUpdatedAt st then
                (Inr (),
                 st\<lparr>pagePullQuery :=
                      skip_q (toNumber (skip (pagePullQuery st)) + int (length pulledRecords))
                        (pagePullQuery st)\<rparr>)
              else (Inr (), buildQueryFromLastKnownUpdateAt lastRecordTime st))
         | _ \<Rightarrow> (Inl UpdatedAtNotDate, st)))"

text \<open>
  \<^verbatim>\<open>pullAllPages\<close>. The recursion through the promise chain may go on for ever (a server
  that never answers with an empty page), so the model counts the pages it may still
  fetch: \<open>None\<close> is a pull that has not finished within that number of pages.
\<close>

fun pullAllPages :: "nat \<Rightarrow> env \<Rightarrow> pull_state \<Rightarrow> (error + unit) option \<times> pull_state" where
  "pullAllPages 0 env st = (None, st)"
| "pullAllPages (Suc n) env st =
     (case pullPage env st of
        (Inl e, st1) \<Rightarrow> (Some (Inl e), st1)
      | (Inr pulledRecords, st1) \<Rightarrow>
          (if \<not> isPullComplete pulledRecords then
             (case updateQueryForNextPage pulledRecords st1 of
                (Inl e, st2) \<Rightarrow> (Some (Inl e), st2)
              | (Inr u, st2) \<Rightarrow> pullAllPages n env st2)
           else (Some (Inr ()), st1)))"

text \<open>
  The choice of the page size in \<^verbatim>\<open>pull\<close>: \<^verbatim>\<open>settings = settings || {}\<close>, then the
  default for an absent \<^verbatim>\<open>settings.pageSize\<close>, the given size when it is a positive
  integer, and a \<^verbatim>\<open>throw\<close> otherwise.
\<close>

definition pageSizeFromSettings :: "pull_settings option \<Rightarrow> error + int" where
  "pageSizeFromSettings settings =
     (let ps = (case settings of None \<Rightarrow> Undefined | Some s \<Rightarrow> pageSize_setting s)
      in if isNull ps then Inr defaultPageSize
         else (case ps of
                 Num n \<Rightarrow> (if isInteger ps \<and> n > 0 then Inr n else Inl InvalidPageSize)
               | _ \<Rightarrow> Inl InvalidPageSize))"

text \<open>
  \<^verbatim>\<open>pull\<close>. \<^verbatim>\<open>queryId\<close> is a string or \<^verbatim>\<open>null\<close> and \<^verbatim>\<open>settings\<close> an object or absent,
  so \<^verbatim>\<open>Validate.isString\<close> and \<^verbatim>\<open>Validate.isObject\<close> pass. The task runner, which lets
  one pull run at a time, is not modelled: the model is one pull.
\<close>

definition pull ::
  "nat \<Rightarrow> env \<Rightarrow> query \<Rightarrow> string option \<Rightarrow> pull_settings option \<Rightarrow> pull_state
     \<Rightarrow> (error + unit) option \<times> pull_state" where
  "pull fuel env q queryId settings st =
     (case validateQuery q of
        Inl e \<Rightarrow> (Some (Inl e), st)
      | Inr u \<Rightarrow>
          (case pageSizeFromSettings settings of
             Inl e \<Rightarrow> (Some (Inl e), st)
           | Inr n \<Rightarrow>
               pullAllPages fuel env
                 (setupQuery env
                   (st\<lparr>pageSize := n, tablePullQuery := copyQuery q,
                       features := (if truthy_str queryId then [OfflineSync, IncrementalPull]
                                    else [OfflineSync]),
                       pullQueryId := queryId\<rparr>))))"

subsection \<open>Reading the log of calls\<close>

text \<open>The pages the server returned, the checkpoint rows written, in the order of the log.\<close>

fun fetchedPages :: "call list \<Rightarrow> pulled_record list list" where
  "fetchedPages [] = []"
| "fetchedPages (Read q p # cs) = p # fetchedPages cs"
| "fetchedPages (c # cs) = fetchedPages cs"

fun checkpointWrites :: "call list \<Rightarrow> checkpoint_row list" where
  "checkpointWrites [] = []"
| "checkpointWrites (UpsertPulltime row # cs) = row # checkpointWrites cs"
| "checkpointWrites (c # cs) = checkpointWrites cs"

text \<open>The strict tests \<^verbatim>\<open>=== true\<close> and \<^verbatim>\<open>=== false\<close> of the delete flag.\<close>

definition isBoolean :: "jsval \<Rightarrow> bool" where
  "isBoolean v = (v = Bool True \<or> v = Bool False)"

text \<open>
  The clause \<^verbatim>\<open>updatedAt >= lastKnownUpdatedAt\<close> that \<^verbatim>\<open>buildQueryFromLastKnownUpdateAt\<close>
  added to a page query, what it asks of a record, and the log in which every page
  returned by the server satisfies the clause of the query that fetched it.
\<close>

fun cursorOf :: "query \<Rightarrow> jsdate option" where
  "cursorOf q =
     (case filters q of
        Some (And g (UpdatedAtGe t)) \<Rightarrow> Some t
      | Some (UpdatedAtGe t) \<Rightarrow> Some t
      | _ \<Rightarrow> None)"

definition satisfiesCursor :: "query \<Rightarrow> pulled_record \<Rightarrow> bool" where
  "satisfiesCursor q r =
     (case cursorOf q of
        None \<Rightarrow> True
      | Some t \<Rightarrow> (case updatedAt r of DateVal u \<Rightarrow> t \<le> u | _ \<Rightarrow> False))"

fun pagesRespectFilter :: "call list \<Rightarrow> bool" where
  "pagesRespectFilter [] = True"
| "pagesRespectFilter (Read q p # cs) = (list_all (satisfiesCursor q) p \<and> pagesRespectFilter cs)"
| "pagesRespectFilter (c # cs) = pagesRespectFilter cs"

text \<open>The page query is the one built from the cursor.\<close>

definition cursorInv :: "pull_state \<Rightarrow> bool" where
  "cursorInv st = (cursorOf (pagePullQuery st) = Some (lastKnownUpdatedAt st))"

text \<open>
  Modelled from the spec: the minimum representable timestamp, which the design notes ask
  for as the "beginning of time". A JavaScript time value is at least \<open>-8.64e15\<close>
  milliseconds.
\<close>

definition minTimestamp :: jsdate where
  "minTimestamp = - 8640000000000000"

subsection \<open>A table, a server and a store to run the pull on\<close>

definition exQuery :: query where
  "exQuery = \<lparr>table = ''todoitem'', filters = None, ordering = [], skip = None, take = None,
              selections = [], includeTotalCount = False\<rparr>"

definition exRecord :: "int \<Rightarrow> jsval \<Rightarrow> jsdate \<Rightarrow> pulled_record" where
  "exRecord i d t = \<lparr>rec_id = Num i, deleted = d, updatedAt = DateVal t\<rparr>"

text \<open>The pull manager before its first pull, with an empty pull-time table.\<close>

definition exState :: pull_state where
  "exState = \<lparr>pageSize = 0, lastKnownUpdatedAt = 0, tablePullQuery = exQuery,
              pagePullQuery = exQuery, pullQueryId = None, features = [],
              pulltime = Map.empty, calls = []\<rparr>"

text \<open>
  A server that answers the first fetch with the first page of a script, the second with
  the second, and with an empty page when the script is over; an operation table manager
  that always reports the same pending operations; a runtime in UTC.
\<close>

definition scriptedRead :: "pulled_record list list \<Rightarrow> call list \<Rightarrow> query \<Rightarrow> pulled_record list" where
  "scriptedRead pages h q =
     (let i = length (fetchedPages h) in if i < length pages then pages ! i else [])"

definition exEnv :: "pulled_record list list \<Rightarrow> pending_op list \<Rightarrow> env" where
  "exEnv pages pend = \<lparr>remoteRead = scriptedRead pages,
                       readPagePendingOperations = (\<lambda>h t rs. pend), localTZA = 0\<rparr>"

text \<open>
  The scenario of the specification: two records at the instant 1000, one at 2000, then an
  empty page.
\<close>

definition exPages :: "pulled_record list list" where
  "exPages = [[exRecord 1 (Bool False) 1000, exRecord 2 (Bool False) 1000],
              [exRecord 3 (Bool False) 2000], []]"

text \<open>A pull session of page size 2 whose cursor is at 1000.\<close>

definition exSession :: pull_state where
  "exSession = buildQueryFromLastKnownUpdateAt 1000 (exState\<lparr>pageSize := 2\<rparr>)"

text \<open>The same session after a page of two records at 1000: the page query skips 2.\<close>

definition exSessionAtOffset :: pull_state where
  "exSessionAtOffset = exSession\<lparr>pagePullQuery := skip_q 2 (pagePullQuery exSession)\<rparr>"

text \<open>A page with a deleted record, a live one and a deleted one.\<close>

definition exMixedPage :: "pulled_record list" where
  "exMixedPage = [exRecord 1 (Bool True) 1000, exRecord 2 (Bool False) 1000,
                  exRecord 3 (Bool True) 2000]"

text \<open>A page whose second record has no \<^verbatim>\<open>deleted\<close> property.\<close>

definition exFlaglessPage :: "pulled_record list" where
  "exFlaglessPage = [exRecord 1 (Bool False) 1000, exRecord 2 Undefined 1000]"

text \<open>A page whose records have no id and an empty id.\<close>

definition exIdlessPage :: "pulled_record list" where
  "exIdlessPage = [\<lparr>rec_id = Undefined, deleted = Bool False, updatedAt = DateVal 1000\<rparr>,
                   \<lparr>rec_id = Str [], deleted = Bool True, updatedAt = DateVal 1000\<rparr>]"

section \<open>Properties\<close>

subsection \<open>The log and the frame of each step\<close>

lemma fetchedPages_append: "fetchedPages (xs @ ys) = fetchedPages xs @ fetchedPages ys"
  by (induction xs rule: fetchedPages.induct) auto

lemma checkpointWrites_append:
  "checkpointWrites (xs @ ys) = checkpointWrites xs @ checkpointWrites ys"
  by (induction xs rule: checkpointWrites.induct) auto

lemma pagesRespectFilter_append:
  "pagesRespectFilter (xs @ ys) = (pagesRespectFilter xs \<and> pagesRespectFilter ys)"
  by (induction xs rule: pagesRespectFilter.induct) auto

lemma processRecordsLoop_pending:
  "pendingOperations \<noteq> [] \<Longrightarrow>
     processRecordsLoop pendingOperations records idsToDelete recordsToUpdate =
       Inr (idsToDelete, recordsToUpdate)"
  by (induction records) auto

lemma processRecordsLoop_no_pending:
  "processRecordsLoop [] records idsToDelete recordsToUpdate =
     (if list_all (\<lambda>r. isBoolean (deleted r)) records then
        Inr (idsToDelete @ map rec_id [r \<leftarrow> records. deleted r = Bool True],
             recordsToUpdate @ [r \<leftarrow> records. deleted r = Bool False])
      else Inl DeletedFlagMissing)"
  by (induction records arbitrary: idsToDelete recordsToUpdate) (auto simp: isBoolean_def)

text \<open>
  Processing a page changes nothing but the log, to which it adds no fetch and no
  checkpoint write; an empty page is always processed.
\<close>

lemma processPulledRecords_frame:
  "processPulledRecords env tableName records st = (res, st') \<Longrightarrow>
     pulltime st' = pulltime st \<and> pullQueryId st' = pullQueryId st \<and>
     lastKnownUpdatedAt st' = lastKnownUpdatedAt st \<and>
     pagePullQuery st' = pagePullQuery st \<and> tablePullQuery st' = tablePullQuery st \<and>
     pageSize st' = pageSize st \<and>
     (\<exists>cs. calls st' = calls st @ cs \<and> fetchedPages cs = [] \<and> checkpointWrites cs = [] \<and>
           pagesRespectFilter cs) \<and>
     (records = [] \<longrightarrow> res = Inr ())"
  by (auto simp: processPulledRecords_def processAllRecords_def Let_def
      split: sum.splits prod.splits)

text \<open>Processing fails on a record without a boolean delete flag, and on nothing else.\<close>

lemma processPulledRecords_error:
  assumes "processPulledRecords env tableName records st = (Inl e, st')"
  shows "e = DeletedFlagMissing \<and> (\<exists>r \<in> set records. \<not> isBoolean (deleted r))"
proof -
  let ?pend = "readPagePendingOperations env (calls st) tableName records"
  from assms have l: "processRecordsLoop ?pend records [] [] = Inl e"
    by (auto simp: processPulledRecords_def processAllRecords_def Let_def
        split: sum.splits prod.splits)
  then have "?pend = []"
    using processRecordsLoop_pending[of ?pend records "[]" "[]"] by auto
  with l show ?thesis
    by (auto simp: processRecordsLoop_no_pending list_all_iff split: if_splits)
qed

lemma onPagePulled_frame:
  "lastKnownUpdatedAt (onPagePulled st) = lastKnownUpdatedAt st \<and>
   pagePullQuery (onPagePulled st) = pagePullQuery st \<and>
   tablePullQuery (onPagePulled st) = tablePullQuery st \<and>
   pageSize (onPagePulled st) = pageSize st \<and>
   pullQueryId (onPagePulled st) = pullQueryId st \<and>
   (\<exists>cs. calls (onPagePulled st) = calls st @ cs \<and> fetchedPages cs = [] \<and>
         pagesRespectFilter cs)"
  by (auto simp: onPagePulled_def Let_def split: option.splits)

lemma onPagePulled_vanilla: "\<not> truthy_str (pullQueryId st) \<Longrightarrow> onPagePulled st = st"
  by (auto simp: onPagePulled_def truthy_str_def split: option.splits)

lemma updateQueryForNextPage_frame:
  "updateQueryForNextPage recs st = (res, st') \<Longrightarrow>
     calls st' = calls st \<and> pulltime st' = pulltime st \<and> pullQueryId st' = pullQueryId st \<and>
     tablePullQuery st' = tablePullQuery st \<and> pageSize st' = pageSize st"
  by (auto simp: updateQueryForNextPage_def buildQueryFromLastKnownUpdateAt_def
      split: if_splits jsval.splits)

text \<open>
  Advancing the cursor over a page with records fails when the last record has no
  timestamp, and on nothing else.
\<close>

lemma updateQueryForNextPage_error:
  "updateQueryForNextPage recs st = (Inl e, st') \<Longrightarrow> recs \<noteq> [] \<Longrightarrow>
     e = UpdatedAtNotDate \<and> (\<forall>t. updatedAt (last recs) \<noteq> DateVal t)"
  by (auto simp: updateQueryForNextPage_def split: if_splits jsval.splits)


text \<open>
  Fetching a page changes no variable of the pull manager; it adds to the log the fetch,
  with the page the server returned, and then calls that are no fetch. It returns the
  page it fetched, and can only fail on a page that is not empty.
\<close>

lemma pullPage_effect:
  assumes "pullPage env st = (res, st')"
  shows "lastKnownUpdatedAt st' = lastKnownUpdatedAt st \<and> pagePullQuery st' = pagePullQuery st \<and>
         tablePullQuery st' = tablePullQuery st \<and> pageSize st' = pageSize st \<and>
         pullQueryId st' = pullQueryId st \<and>
         (\<exists>cs. calls st' =
                 calls st @ Read (pagePullQuery st) (remoteRead env (calls st) (pagePullQuery st)) # cs \<and>
               fetchedPages cs = [] \<and> pagesRespectFilter cs) \<and>
         (case res of Inr recs \<Rightarrow> recs = remoteRead env (calls st) (pagePullQuery st)
          | Inl e \<Rightarrow> remoteRead env (calls st) (pagePullQuery st) \<noteq> [] \<and>
              e = DeletedFlagMissing \<and>
              (\<exists>r \<in> set (remoteRead env (calls st) (pagePullQuery st)).
                 \<not> isBoolean (deleted r)))"
proof -
  let ?p = "remoteRead env (calls st) (pagePullQuery st)"
  let ?st1 = "st\<lparr>calls := calls st @ [Read (pagePullQuery st) ?p]\<rparr>"
  obtain r2 st2 where pr: "processPulledRecords env (table (pagePullQuery st)) ?p ?st1 = (r2, st2)"
    by (cases "processPulledRecords env (table (pagePullQuery st)) ?p ?st1")
  from processPulledRecords_frame[OF pr] obtain cs where
    f: "lastKnownUpdatedAt st2 = lastKnownUpdatedAt st" "pagePullQuery st2 = pagePullQuery st"
       "tablePullQuery st2 = tablePullQuery st" "pageSize st2 = pageSize st"
       "pullQueryId st2 = pullQueryId st"
       "calls st2 = calls st @ Read (pagePullQuery st) ?p # cs"
       "fetchedPages cs = []" "pagesRespectFilter cs"
       "?p = [] \<longrightarrow> r2 = Inr ()"
    by auto
  show ?thesis
  proof (cases r2)
    case (Inl e)
    with assms pr have "res = Inl e" "st' = st2" by (simp_all add: pullPage_def Let_def)
    with f Inl processPulledRecords_error[of env "table (pagePullQuery st)" ?p ?st1 e st2] pr
    show ?thesis by auto
  next
    case (Inr u)
    with assms pr have r: "res = Inr ?p" "st' = onPagePulled st2"
      by (simp_all add: pullPage_def Let_def)
    from onPagePulled_frame[of st2] obtain cs2 where
      c2: "calls (onPagePulled st2) = calls st2 @ cs2" "fetchedPages cs2 = []"
          "pagesRespectFilter cs2" by blast
    with f have "calls (onPagePulled st2) = calls st @ Read (pagePullQuery st) ?p # (cs @ cs2)"
      "fetchedPages (cs @ cs2) = []" "pagesRespectFilter (cs @ cs2)"
      by (simp_all add: pagesRespectFilter_append fetchedPages_append)
    with r f onPagePulled_frame[of st2] show ?thesis by auto
  qed
qed

text \<open>Without a truthy query id, fetching a page writes no checkpoint.\<close>

lemma pullPage_vanilla:
  assumes "\<not> truthy_str (pullQueryId st)" and "pullPage env st = (res, st')"
  shows "checkpointWrites (calls st') = checkpointWrites (calls st) \<and> pulltime st' = pulltime st"
proof -
  let ?p = "remoteRead env (calls st) (pagePullQuery st)"
  let ?st1 = "st\<lparr>calls := calls st @ [Read (pagePullQuery st) ?p]\<rparr>"
  obtain r2 st2 where pr: "processPulledRecords env (table (pagePullQuery st)) ?p ?st1 = (r2, st2)"
    by (cases "processPulledRecords env (table (pagePullQuery st)) ?p ?st1")
  from processPulledRecords_frame[OF pr]
  have f: "checkpointWrites (calls st2) = checkpointWrites (calls st)" "pulltime st2 = pulltime st"
    "pullQueryId st2 = pullQueryId st"
    by (auto simp: checkpointWrites_append)
  with assms(1) have "onPagePulled st2 = st2" by (simp add: onPagePulled_vanilla)
  with assms(2) pr f show ?thesis
    by (cases r2) (auto simp: pullPage_def Let_def)
qed

text \<open>One round of \<^verbatim>\<open>pullAllPages\<close> ends in one of four ways.\<close>

lemma pullAllPages_round:
  assumes "pullAllPages (Suc n) env st = (out, st')"
  obtains
    (page_failed) e where "pullPage env st = (Inl e, st')" and "out = Some (Inl e)"
  | (complete) "pullPage env st = (Inr [], st')" and "out = Some (Inr ())"
  | (advance_failed) recs st1 e where "pullPage env st = (Inr recs, st1)" and "recs \<noteq> []"
      and "updateQueryForNextPage recs st1 = (Inl e, st')" and "out = Some (Inl e)"
  | (next_page) recs st1 st2 where "pullPage env st = (Inr recs, st1)" and "recs \<noteq> []"
      and "updateQueryForNextPage recs st1 = (Inr (), st2)"
      and "pullAllPages n env st2 = (out, st')"
proof -
  obtain res st1 where pp: "pullPage env st = (res, st1)"
    by (cases "pullPage env st")
  show ?thesis
  proof (cases res)
    case (Inl e)
    with pp assms have "pullPage env st = (Inl e, st')" "out = Some (Inl e)" by auto
    then show ?thesis by (rule page_failed)
  next
    case (Inr recs)
    show ?thesis
    proof (cases "recs = []")
      case True
      with Inr pp assms have "pullPage env st = (Inr [], st')" "out = Some (Inr ())"
        by (auto simp: isPullComplete_def)
      then show ?thesis by (rule complete)
    next
      case False
      obtain r2 st2 where uq: "updateQueryForNextPage recs st1 = (r2, st2)"
        by (cases "updateQueryForNextPage recs st1")
      show ?thesis
      proof (cases r2)
        case (Inl e)
        with False \<open>res = Inr recs\<close> pp uq assms
        have "updateQueryForNextPage recs st1 = (Inl e, st')" "out = Some (Inl e)"
          by (auto simp: isPullComplete_def)
        with pp \<open>res = Inr recs\<close> False show ?thesis by (auto intro: advance_failed)
      next
        case r: (Inr u)
        with False \<open>res = Inr recs\<close> pp uq assms
        have "pullAllPages n env st2 = (out, st')" by (auto simp: isPullComplete_def)
        with pp \<open>res = Inr recs\<close> False uq r show ?thesis by (auto intro: next_page)
      qed
    qed
  qed
qed

text \<open>The log only grows, and a round begins with a fetch.\<close>

lemma pullAllPages_calls:
  "pullAllPages fuel env st = (out, st') \<Longrightarrow> \<exists>new. calls st' = calls st @ new"
proof (induction fuel arbitrary: st)
  case 0
  then show ?case by simp
next
  case (Suc n)
  from Suc.prems show ?case
  proof (cases rule: pullAllPages_round)
    case (page_failed e)
    from pullPage_effect[OF page_failed(1)] show ?thesis by auto
  next
    case complete
    from pullPage_effect[OF complete(1)] show ?thesis by auto
  next
    case (advance_failed recs st1 e)
    from pullPage_effect[OF advance_failed(1)] updateQueryForNextPage_frame[OF advance_failed(3)]
    show ?thesis by auto
  next
    case (next_page recs st1 st2)
    from pullPage_effect[OF next_page(1)] updateQueryForNextPage_frame[OF next_page(3)]
      Suc.IH[OF next_page(4)]
    show ?thesis by auto
  qed
qed

lemma pullAllPages_calls_first:
  assumes "pullAllPages (Suc k) env st = (out, st')"
  shows "\<exists>new. calls st' =
           calls st @ Read (pagePullQuery st) (remoteRead env (calls st) (pagePullQuery st)) # new"
  using assms
proof (cases rule: pullAllPages_round)
  case (page_failed e)
  from pullPage_effect[OF page_failed(1)] show ?thesis by auto
next
  case complete
  from pullPage_effect[OF complete(1)] show ?thesis by auto
next
  case (advance_failed recs st1 e)
  from pullPage_effect[OF advance_failed(1)] updateQueryForNextPage_frame[OF advance_failed(3)]
  show ?thesis by auto
next
  case (next_page recs st1 st2)
  from pullPage_effect[OF next_page(1)] updateQueryForNextPage_frame[OF next_page(3)]
    pullAllPages_calls[OF next_page(4)]
  show ?thesis by auto
qed

text \<open>More fuel continues the pull where less fuel stopped.\<close>

lemma pullAllPages_add:
  "pullAllPages k env st = (out, sk) \<Longrightarrow>
     pullAllPages (k + j) env st =
       (case out of None \<Rightarrow> pullAllPages j env sk | Some r \<Rightarrow> (Some r, sk))"
proof (induction k arbitrary: st)
  case 0
  then show ?case by simp
next
  case (Suc n)
  from Suc.prems show ?case
  proof (cases rule: pullAllPages_round)
    case (page_failed e)
    then show ?thesis by simp
  next
    case complete
    then show ?thesis by (simp add: isPullComplete_def)
  next
    case (advance_failed recs st1 e)
    then show ?thesis by (simp add: isPullComplete_def)
  next
    case (next_page recs st1 st2)
    with Suc.IH[OF next_page(4)] show ?thesis by (simp add: isPullComplete_def)
  qed
qed

text \<open>The table query of a pull is the validated query of the caller.\<close>

lemma validateQuery_copyQuery: "validateQuery (copyQuery q) = validateQuery q"
  by (simp add: validateQuery_def copyQuery_def)

lemma setupQuery_frame:
  "tablePullQuery (setupQuery env st) = tablePullQuery st \<and>
   pageSize (setupQuery env st) = pageSize st \<and>
   pullQueryId (setupQuery env st) = pullQueryId st \<and>
   pulltime (setupQuery env st) = pulltime st \<and>
   table (pagePullQuery (setupQuery env st)) = table (tablePullQuery st) \<and>
   lastKnownUpdatedAt (setupQuery env st) = fst (getLastKnownUpdatedAt env st) \<and>
   calls (setupQuery env st) =
     calls st @ (case pullQueryId st of None \<Rightarrow> []
                 | Some qid \<Rightarrow> if qid = [] then [] else [Lookup qid])"
  by (auto simp: setupQuery_def getLastKnownUpdatedAt_def Let_def
      buildQueryFromLastKnownUpdateAt_def take_q_def orderBy_def where_q_def copyQuery_def
      split: option.splits)

lemma pullAllPages_tablePullQuery:
  "pullAllPages fuel env st = (out, st') \<Longrightarrow>
     tablePullQuery st' = tablePullQuery st \<and> pageSize st' = pageSize st \<and>
     pullQueryId st' = pullQueryId st"
proof (induction fuel arbitrary: st)
  case 0
  then show ?case by simp
next
  case (Suc n)
  from Suc.prems show ?case
  proof (cases rule: pullAllPages_round)
    case (page_failed e)
    from pullPage_effect[OF page_failed(1)] show ?thesis by simp
  next
    case complete
    from pullPage_effect[OF complete(1)] show ?thesis by simp
  next
    case (advance_failed recs st1 e)
    from pullPage_effect[OF advance_failed(1)] updateQueryForNextPage_frame[OF advance_failed(3)]
    show ?thesis by simp
  next
    case (next_page recs st1 st2)
    from pullPage_effect[OF next_page(1)] updateQueryForNextPage_frame[OF next_page(3)]
      Suc.IH[OF next_page(4)]
    show ?thesis by simp
  qed
qed

text \<open>
  During a pull the table query is the copy of the caller's query, which has passed the
  validation, and the page size is the one chosen at the start.
\<close>

lemma pull_session:
  assumes "pull fuel env q queryId settings st = (out, st')"
    and "validateQuery q = Inr ()" and "pageSizeFromSettings settings = Inr n"
  shows "tablePullQuery st' = copyQuery q \<and> validateQuery (tablePullQuery st') = Inr () \<and>
         pageSize st' = n \<and> pullQueryId st' = queryId"
proof -
  let ?st0 = "st\<lparr>pageSize := n, tablePullQuery := copyQuery q,
                 features := (if truthy_str queryId then [OfflineSync, IncrementalPull]
                              else [OfflineSync]),
                 pullQueryId := queryId\<rparr>"
  from assms have "pullAllPages fuel env (setupQuery env ?st0) = (out, st')"
    by (simp add: pull_def)
  from pullAllPages_tablePullQuery[OF this] setupQuery_frame[of env ?st0] assms(2)
  show ?thesis by (simp add: validateQuery_copyQuery)
qed

subsection \<open>Advancing the cursor\<close>

text \<open>
  C1. The step \<^verbatim>\<open>updateQueryForNextPage\<close> on a page that is not empty, in a pull session
  (the table query is the validated query of the caller). When the \<^verbatim>\<open>updatedAt\<close> of the
  last record is a timestamp equal to the cursor, the cursor stays and the page query
  changes in its \<^verbatim>\<open>skip\<close> only: a \<^verbatim>\<open>skip\<close> of \<open>k\<close> becomes \<open>k\<close> plus the number of
  records of the page, and no \<^verbatim>\<open>skip\<close> (offset 0) becomes the number of records of the
  page. When it is another timestamp, the cursor becomes that timestamp and the page
  query is built anew: no \<^verbatim>\<open>skip\<close> or the \<^verbatim>\<open>skip\<close> 0, the filter of the table query
  and \<^verbatim>\<open>updatedAt >= cursor\<close>, ordered by \<^verbatim>\<open>updatedAt\<close> ascending, limited to the page
  size. When it is no timestamp at all the step fails and changes nothing.
\<close>

theorem updateQueryForNextPage_cursor_advance:
  assumes ne: "pulledRecords \<noteq> []"
    and valid: "validateQuery (tablePullQuery st) = Inr ()"
    and run: "updateQueryForNextPage pulledRecords st = (res, st')"
  shows "case updatedAt (last pulledRecords) of
      DateVal t \<Rightarrow>
        res = Inr () \<and>
          (if t = lastKnownUpdatedAt st then
             lastKnownUpdatedAt st' = lastKnownUpdatedAt st \<and>
             pagePullQuery st' =
               (pagePullQuery st)\<lparr>skip :=
                  (case skip (pagePullQuery st) of
                     None \<Rightarrow> Some (int (length pulledRecords))
                   | Some k \<Rightarrow> Some (k + int (length pulledRecords)))\<rparr>
           else
             lastKnownUpdatedAt st' = t \<and>
             skip (pagePullQuery st') \<in> {None, Some 0} \<and>
             filters (pagePullQuery st') =
               Some (case filters (tablePullQuery st) of None \<Rightarrow> UpdatedAtGe t
                     | Some g \<Rightarrow> And g (UpdatedAtGe t)) \<and>
             ordering (pagePullQuery st') = [(updatedAtColumnName, True)] \<and>
             take (pagePullQuery st') = Some (pageSize st))
    | _ \<Rightarrow> res = Inl UpdatedAtNotDate \<and> st' = st"
proof -
  from valid have ord: "ordering (tablePullQuery st) = []"
    and sk: "\<not> truthy_num (skip (tablePullQuery st))"
    by (auto simp: validateQuery_def split: if_splits)
  from sk have sk0: "skip (tablePullQuery st) \<in> {None, Some 0}"
    by (auto simp: truthy_num_def split: option.splits)
  show ?thesis
    using ne ord sk0 run
    by (auto simp: updateQueryForNextPage_def buildQueryFromLastKnownUpdateAt_def
        take_q_def orderBy_def where_q_def copyQuery_def skip_q_def toNumber_def
        split: jsval.splits option.splits)
qed

text \<open>
  In the session of page size 2 with the cursor at 1000. A page of two records at 1000
  moves the offset from none to 2; in the state reached, a further page of one record at
  1000 moves it from 2 to 3, and the cursor stays. A page ending at 2000 moves the cursor
  to 2000 and the page query is built anew.
\<close>

theorem updateQueryForNextPage_cursor_advance_witness:
  "fst (updateQueryForNextPage [exRecord 1 (Bool False) 1000, exRecord 2 (Bool False) 1000]
          exSession) = Inr () \<and>
   lastKnownUpdatedAt
     (snd (updateQueryForNextPage [exRecord 1 (Bool False) 1000, exRecord 2 (Bool False) 1000]
             exSession)) = 1000 \<and>
   pagePullQuery
     (snd (updateQueryForNextPage [exRecord 1 (Bool False) 1000, exRecord 2 (Bool False) 1000]
             exSession)) = (pagePullQuery exSession)\<lparr>skip := Some 2\<rparr> \<and>
   skip (pagePullQuery exSessionAtOffset) = Some 2 \<and>
   fst (updateQueryForNextPage [exRecord 3 (Bool False) 1000] exSessionAtOffset) = Inr () \<and>
   lastKnownUpdatedAt
     (snd (updateQueryForNextPage [exRecord 3 (Bool False) 1000] exSessionAtOffset)) = 1000 \<and>
   pagePullQuery (snd (updateQueryForNextPage [exRecord 3 (Bool False) 1000] exSessionAtOffset)) =
     (pagePullQuery exSessionAtOffset)\<lparr>skip := Some 3\<rparr> \<and>
   lastKnownUpdatedAt (snd (updateQueryForNextPage [exRecord 3 (Bool False) 2000] exSession)) = 2000 \<and>
   skip (pagePullQuery
     (snd (updateQueryForNextPage [exRecord 3 (Bool False) 2000] exSessionAtOffset))) = None \<and>
   filters (pagePullQuery
     (snd (updateQueryForNextPage [exRecord 3 (Bool False) 2000] exSession))) =
       Some (UpdatedAtGe 2000) \<and>
   ordering (pagePullQuery
     (snd (updateQueryForNextPage [exRecord 3 (Bool False) 2000] exSession))) =
       [(''updatedAt'', True)] \<and>
   take (pagePullQuery
     (snd (updateQueryForNextPage [exRecord 3 (Bool False) 2000] exSession))) = Some 2"
proof -
  let ?same = "[exRecord 1 (Bool False) 1000, exRecord 2 (Bool False) 1000]"
  let ?more = "[exRecord 3 (Bool False) 1000]"
  let ?later = "[exRecord 3 (Bool False) 2000]"
  have valid: "validateQuery (tablePullQuery exSession) = Inr ()"
    by (simp add: exSession_def exState_def exQuery_def buildQueryFromLastKnownUpdateAt_def
        validateQuery_def truthy_num_def)
  have facts: "lastKnownUpdatedAt exSession = 1000" "pageSize exSession = 2"
    "filters (tablePullQuery exSession) = None" "skip (pagePullQuery exSession) = None"
    by (simp_all add: exSession_def exState_def exQuery_def buildQueryFromLastKnownUpdateAt_def
        take_q_def orderBy_def where_q_def copyQuery_def)
  have valid2: "validateQuery (tablePullQuery exSessionAtOffset) = Inr ()"
    by (simp add: exSessionAtOffset_def exSession_def exState_def exQuery_def
        buildQueryFromLastKnownUpdateAt_def validateQuery_def truthy_num_def)
  have facts2: "lastKnownUpdatedAt exSessionAtOffset = 1000"
    "skip (pagePullQuery exSessionAtOffset) = Some 2"
    by (simp_all add: exSessionAtOffset_def exSession_def exState_def exQuery_def
        buildQueryFromLastKnownUpdateAt_def take_q_def orderBy_def where_q_def copyQuery_def
        skip_q_def)
  have ne1: "?same \<noteq> []" and ne2: "?later \<noteq> []" and ne3: "?more \<noteq> []" by simp_all
  have run1: "updateQueryForNextPage ?same exSession =
      (fst (updateQueryForNextPage ?same exSession), snd (updateQueryForNextPage ?same exSession))"
    by simp
  have run2: "updateQueryForNextPage ?later exSession =
      (fst (updateQueryForNextPage ?later exSession), snd (updateQueryForNextPage ?later exSession))"
    by simp
  have run3: "updateQueryForNextPage ?more exSessionAtOffset =
      (fst (updateQueryForNextPage ?more exSessionAtOffset),
       snd (updateQueryForNextPage ?more exSessionAtOffset))"
    by simp
  have run4: "updateQueryForNextPage ?later exSessionAtOffset =
      (fst (updateQueryForNextPage ?later exSessionAtOffset),
       snd (updateQueryForNextPage ?later exSessionAtOffset))"
    by simp
  from updateQueryForNextPage_cursor_advance[OF ne1 valid run1]
  have w1: "fst (updateQueryForNextPage ?same exSession) = Inr () \<and>
     lastKnownUpdatedAt (snd (updateQueryForNextPage ?same exSession)) = 1000 \<and>
     pagePullQuery (snd (updateQueryForNextPage ?same exSession)) =
       (pagePullQuery exSession)\<lparr>skip := Some 2\<rparr>"
    by (simp add: exRecord_def facts)
  from updateQueryForNextPage_cursor_advance[OF ne3 valid2 run3]
  have w3: "fst (updateQueryForNextPage ?more exSessionAtOffset) = Inr () \<and>
     lastKnownUpdatedAt (snd (updateQueryForNextPage ?more exSessionAtOffset)) = 1000 \<and>
     pagePullQuery (snd (updateQueryForNextPage ?more exSessionAtOffset)) =
       (pagePullQuery exSessionAtOffset)\<lparr>skip := Some 3\<rparr>"
    by (simp add: exRecord_def facts2)
  from updateQueryForNextPage_cursor_advance[OF ne2 valid run2]
  have w2: "lastKnownUpdatedAt (snd (updateQueryForNextPage ?later exSession)) = 2000 \<and>
     filters (pagePullQuery (snd (updateQueryForNextPage ?later exSession))) =
       Some (UpdatedAtGe 2000) \<and>
     ordering (pagePullQuery (snd (updateQueryForNextPage ?later exSession))) =
       [(''updatedAt'', True)] \<and>
     take (pagePullQuery (snd (updateQueryForNextPage ?later exSession))) = Some 2"
    by (simp add: exRecord_def facts updatedAtColumnName_def)
  have w4: "skip (pagePullQuery (snd (updateQueryForNextPage ?later exSessionAtOffset))) = None"
    by code_simp
  from w1 w2 w3 w4 facts2 show ?thesis by simp
qed

subsection \<open>Completion of the pull\<close>

text \<open>
  C2. A pull that fetches at least one page. Whatever the outcome, every page fetched before
  the last one was not empty, and the pull has ended successfully exactly when the last
  page fetched is empty: an empty page ends the pull at once, with success, and no page
  with records ends it with success, however few records it has. After a page with
  records the pull fetches again, with two exceptions. The pull fails on that page: then
  a record of the page has no boolean delete flag, or the last record of the page has no
  timestamp. Or the outcome is \<open>None\<close>: then the pull has fetched every page the bound
  of the model allowed, and would fetch again.
\<close>

theorem pullAllPages_completes_on_empty_page:
  assumes "pullAllPages (Suc n) env st = (out, st')"
  shows "\<exists>ps p. fetchedPages (calls st') = fetchedPages (calls st) @ ps @ [p] \<and>
           (\<forall>x \<in> set ps. x \<noteq> []) \<and>
           (out = Some (Inr ()) \<longleftrightarrow> p = []) \<and>
           (out = None \<longrightarrow> length ps = n) \<and>
           (\<forall>e. out = Some (Inl e) \<longrightarrow>
              e = DeletedFlagMissing \<and> (\<exists>r \<in> set p. \<not> isBoolean (deleted r)) \<or>
              e = UpdatedAtNotDate \<and> (\<forall>t. updatedAt (last p) \<noteq> DateVal t))"
  using assms
proof (induction n arbitrary: st)
  case 0
  from "0.prems" show ?case
  proof (cases rule: pullAllPages_round)
    case (page_failed e)
    from pullPage_effect[OF page_failed(1)] page_failed(2) show ?thesis
      by (intro exI[of _ "[]"] exI[of _ "remoteRead env (calls st) (pagePullQuery st)"])
        (auto simp: fetchedPages_append)
  next
    case complete
    from pullPage_effect[OF complete(1)] complete(2) show ?thesis
      by (intro exI[of _ "[]"] exI[of _ "[]"]) (auto simp: fetchedPages_append)
  next
    case (advance_failed recs st1 e)
    from pullPage_effect[OF advance_failed(1)] updateQueryForNextPage_frame[OF advance_failed(3)]
      updateQueryForNextPage_error[OF advance_failed(3,2)] advance_failed(2,4)
    show ?thesis
      by (intro exI[of _ "[]"] exI[of _ recs]) (auto simp: fetchedPages_append)
  next
    case (next_page recs st1 st2)
    from pullPage_effect[OF next_page(1)] updateQueryForNextPage_frame[OF next_page(3)]
      next_page(2,4)
    show ?thesis
      by (intro exI[of _ "[]"] exI[of _ recs]) (auto simp: fetchedPages_append)
  qed
next
  case (Suc n)
  from Suc.prems show ?case
  proof (cases rule: pullAllPages_round)
    case (page_failed e)
    from pullPage_effect[OF page_failed(1)] page_failed(2) show ?thesis
      by (intro exI[of _ "[]"] exI[of _ "remoteRead env (calls st) (pagePullQuery st)"])
        (auto simp: fetchedPages_append)
  next
    case complete
    from pullPage_effect[OF complete(1)] complete(2) show ?thesis
      by (intro exI[of _ "[]"] exI[of _ "[]"]) (auto simp: fetchedPages_append)
  next
    case (advance_failed recs st1 e)
    from pullPage_effect[OF advance_failed(1)] updateQueryForNextPage_frame[OF advance_failed(3)]
      updateQueryForNextPage_error[OF advance_failed(3,2)] advance_failed(2,4)
    show ?thesis
      by (intro exI[of _ "[]"] exI[of _ recs]) (auto simp: fetchedPages_append)
  next
    case (next_page recs st1 st2)
    from Suc.IH[OF next_page(4)] obtain ps p where
      ih: "fetchedPages (calls st') = fetchedPages (calls st2) @ ps @ [p]"
          "\<forall>x \<in> set ps. x \<noteq> []" "(out = Some (Inr ())) = (p = [])"
          "out = None \<longrightarrow> length ps = n"
          "\<forall>e. out = Some (Inl e) \<longrightarrow>
              e = DeletedFlagMissing \<and> (\<exists>r \<in> set p. \<not> isBoolean (deleted r)) \<or>
              e = UpdatedAtNotDate \<and> (\<forall>t. updatedAt (last p) \<noteq> DateVal t)"
      by blast
    from pullPage_effect[OF next_page(1)] updateQueryForNextPage_frame[OF next_page(3)]
    have "fetchedPages (calls st2) = fetchedPages (calls st) @ [recs]"
      by (auto simp: fetchedPages_append)
    with ih next_page(2) show ?thesis
      by (intro exI[of _ "recs # ps"] exI[of _ p]) auto
  qed
qed

text \<open>
  The scenario of the specification with the default page size of 50: the pages of two
  records and of one record do not end the pull, the empty third page does.
\<close>

theorem pullAllPages_completes_on_empty_page_witness:
  "pullAllPages (Suc 4) (exEnv exPages []) (setupQuery (exEnv exPages []) (exState\<lparr>pageSize := 50\<rparr>)) =
     (fst (pullAllPages (Suc 4) (exEnv exPages []) (setupQuery (exEnv exPages []) (exState\<lparr>pageSize := 50\<rparr>))),
      snd (pullAllPages (Suc 4) (exEnv exPages []) (setupQuery (exEnv exPages []) (exState\<lparr>pageSize := 50\<rparr>)))) \<and>
   fst (pullAllPages (Suc 4) (exEnv exPages []) (setupQuery (exEnv exPages []) (exState\<lparr>pageSize := 50\<rparr>))) =
     Some (Inr ()) \<and>
   fetchedPages (calls (snd (pullAllPages (Suc 4) (exEnv exPages [])
       (setupQuery (exEnv exPages []) (exState\<lparr>pageSize := 50\<rparr>))))) = exPages \<and>
   (\<exists>ps p. exPages = ps @ [p] \<and> (\<forall>x \<in> set ps. x \<noteq> []) \<and> p = [])"
proof -
  let ?st = "setupQuery (exEnv exPages []) (exState\<lparr>pageSize := 50\<rparr>)"
  let ?run = "pullAllPages (Suc 4) (exEnv exPages []) ?st"
  have run: "?run = (fst ?run, snd ?run)" by simp
  have out: "fst ?run = Some (Inr ())" by code_simp
  have pages: "fetchedPages (calls (snd ?run)) = exPages" by code_simp
  have start: "fetchedPages (calls ?st) = []" by code_simp
  from pullAllPages_completes_on_empty_page[OF run] out pages start
  have "\<exists>ps p. exPages = ps @ [p] \<and> (\<forall>x \<in> set ps. x \<noteq> []) \<and> p = []"
    by auto
  with run out pages show ?thesis by blast
qed

subsection \<open>Reconciling a page\<close>

text \<open>
  C3. \<^verbatim>\<open>processAllRecords\<close> asks the operation table manager once, for the whole page.
  When the answer has a pending operation, both batches stay empty. When it has none and
  every record has a boolean delete flag, the delete batch is the ids of the records
  whose flag is \<^verbatim>\<open>true\<close> and the upsert batch is the records whose flag is \<^verbatim>\<open>false\<close>,
  in the order of the page, and nothing else. (When it has none and a record has no
  boolean flag the page fails: C4.)
\<close>

theorem processAllRecords_batches:
  "processAllRecords env tableName records [] [] st =
     (let pendingOperations = readPagePendingOperations env (calls st) tableName records
      in ((if pendingOperations \<noteq> [] then Inr ([], [])
           else if list_all (\<lambda>r. isBoolean (deleted r)) records then
             Inr (map rec_id [r \<leftarrow> records. deleted r = Bool True],
                  [r \<leftarrow> records. deleted r = Bool False])
           else Inl DeletedFlagMissing),
          st\<lparr>calls := calls st @
                [ReadPagePendingOperations tableName records pendingOperations]\<rparr>))"
  by (simp add: processAllRecords_def Let_def processRecordsLoop_pending
      processRecordsLoop_no_pending)

text \<open>
  The mixed page without pending operations: ids 1 and 3 are to delete, record 2 is to
  upsert. The same page with a pending operation: nothing is to delete or to upsert.
\<close>

theorem processAllRecords_batches_witness:
  "fst (processAllRecords (exEnv [] []) ''todoitem'' exMixedPage [] [] exState) =
     Inr ([Num 1, Num 3], [exRecord 2 (Bool False) 1000]) \<and>
   fst (processAllRecords (exEnv [] [PendingOp (Num 2)]) ''todoitem'' exMixedPage [] [] exState) =
     Inr ([], []) \<and>
   calls (snd (processAllRecords (exEnv [] [PendingOp (Num 2)]) ''todoitem'' exMixedPage [] []
                 exState)) =
     [ReadPagePendingOperations ''todoitem'' exMixedPage [PendingOp (Num 2)]]"
proof -
  have b: "list_all (\<lambda>r. isBoolean (deleted r)) exMixedPage"
    by (simp add: exMixedPage_def exRecord_def isBoolean_def)
  have e: "readPagePendingOperations (exEnv [] []) (calls exState) ''todoitem'' exMixedPage = []"
    "readPagePendingOperations (exEnv [] [PendingOp (Num 2)]) (calls exState) ''todoitem''
       exMixedPage = [PendingOp (Num 2)]"
    by (simp_all add: exEnv_def)
  from processAllRecords_batches[of "exEnv [] []" "''todoitem''" exMixedPage exState] b e
  have w1: "fst (processAllRecords (exEnv [] []) ''todoitem'' exMixedPage [] [] exState) =
     Inr ([Num 1, Num 3], [exRecord 2 (Bool False) 1000])"
    by (simp add: exMixedPage_def exRecord_def)
  from processAllRecords_batches[of "exEnv [] [PendingOp (Num 2)]" "''todoitem''" exMixedPage
      exState] e
  have w2: "fst (processAllRecords (exEnv [] [PendingOp (Num 2)]) ''todoitem'' exMixedPage [] []
       exState) = Inr ([], []) \<and>
     calls (snd (processAllRecords (exEnv [] [PendingOp (Num 2)]) ''todoitem'' exMixedPage [] []
       exState)) = [ReadPagePendingOperations ''todoitem'' exMixedPage [PendingOp (Num 2)]]"
    by (simp add: exState_def)
  from w1 w2 show ?thesis by simp
qed

text \<open>
  C4. A page for which no operation is pending and in which some record has a delete flag
  that is not a boolean: \<^verbatim>\<open>processPulledRecords\<close> fails, and the only call it has made
  is the question to the operation table manager. Neither \<^verbatim>\<open>store.del\<close> nor
  \<^verbatim>\<open>store.upsert\<close> is called and nothing else of the state changes.
\<close>

theorem processPulledRecords_deleted_flag_missing:
  assumes "readPagePendingOperations env (calls st) tableName records = []"
    and "\<exists>r \<in> set records. \<not> isBoolean (deleted r)"
  shows "processPulledRecords env tableName records st =
     (Inl DeletedFlagMissing,
      st\<lparr>calls := calls st @ [ReadPagePendingOperations tableName records []]\<rparr>)"
  using assms
  by (auto simp: processPulledRecords_def processAllRecords_def Let_def
      processRecordsLoop_no_pending list_all_iff)

text \<open>The page whose second record has no delete flag, the first being a valid upsert.\<close>

theorem processPulledRecords_deleted_flag_missing_witness:
  "readPagePendingOperations (exEnv [] []) (calls exState) ''todoitem'' exFlaglessPage = [] \<and>
   (\<exists>r \<in> set exFlaglessPage. \<not> isBoolean (deleted r)) \<and>
   fst (processPulledRecords (exEnv [] []) ''todoitem'' exFlaglessPage exState) =
     Inl DeletedFlagMissing \<and>
   calls (snd (processPulledRecords (exEnv [] []) ''todoitem'' exFlaglessPage exState)) =
     [ReadPagePendingOperations ''todoitem'' exFlaglessPage []]"
proof -
  have h1: "readPagePendingOperations (exEnv [] []) (calls exState) ''todoitem'' exFlaglessPage = []"
    by (simp add: exEnv_def)
  have h2: "\<exists>r \<in> set exFlaglessPage. \<not> isBoolean (deleted r)"
    by (simp add: exFlaglessPage_def exRecord_def isBoolean_def)
  from processPulledRecords_deleted_flag_missing[OF h1 h2] h1 h2 show ?thesis
    by (simp add: exState_def)
qed

text \<open>
  The same at the level of \<^verbatim>\<open>pullPage\<close>: when a page fails, the calls made for it are
  the fetch and the question to the operation table manager, which found nothing pending.
  The store is not touched: no delete, no upsert, no checkpoint.
\<close>

lemma pullPage_failed_touches_no_store:
  assumes "pullPage env st = (Inl e, st')"
  shows "st' = st\<lparr>calls := calls st @
           [Read (pagePullQuery st) (remoteRead env (calls st) (pagePullQuery st)),
            ReadPagePendingOperations (table (pagePullQuery st))
              (remoteRead env (calls st) (pagePullQuery st)) []]\<rparr>"
proof -
  let ?p = "remoteRead env (calls st) (pagePullQuery st)"
  let ?t = "table (pagePullQuery st)"
  let ?st1 = "st\<lparr>calls := calls st @ [Read (pagePullQuery st) ?p]\<rparr>"
  let ?pend = "readPagePendingOperations env (calls ?st1) ?t ?p"
  from assms have pr: "processPulledRecords env ?t ?p ?st1 = (Inl e, st')"
    by (auto simp: pullPage_def Let_def split: sum.splits prod.splits)
  then have l: "processRecordsLoop ?pend ?p [] [] = Inl e"
    by (auto simp: processPulledRecords_def processAllRecords_def Let_def
        split: sum.splits prod.splits)
  then have "?pend = []"
    using processRecordsLoop_pending[of ?pend ?p "[]" "[]"] by auto
  with pr show ?thesis
    by (auto simp: processPulledRecords_def processAllRecords_def Let_def
        split: sum.splits prod.splits)
qed

text \<open>
  C5. The code does not do what the claim says. The test of the id is commented out in
  \<^verbatim>\<open>processAllRecords\<close>, and \<^verbatim>\<open>processSingleRecord\<close>, which has it, is not called: a
  page whose records have no id, or an empty one, is processed without an error, the
  empty id goes to \<^verbatim>\<open>store.del\<close> and the record without id to \<^verbatim>\<open>store.upsert\<close>.
\<close>

theorem processPulledRecords_accepts_invalid_id:
  "processPulledRecords (exEnv [] []) ''todoitem'' exIdlessPage exState =
     (Inr (),
      exState\<lparr>calls :=
        [ReadPagePendingOperations ''todoitem'' exIdlessPage [],
         Del ''todoitem'' [Str []],
         Upsert ''todoitem'' [\<lparr>rec_id = Undefined, deleted = Bool False,
                                updatedAt = DateVal 1000\<rparr>]]\<rparr>)"
  by (simp add: processPulledRecords_def processAllRecords_def Let_def exEnv_def
      exIdlessPage_def exState_def)

text \<open>The function that is no longer called rejects a record whose id is not valid.\<close>

lemma processSingleRecord_invalid_id:
  "\<not> isValidId (rec_id r) \<Longrightarrow>
     processSingleRecord isValidId pendingOperations r idsToDelete recordsToUpdate = Inl InvalidId"
  by (simp add: processSingleRecord_def)

subsection \<open>Validation of the query\<close>

text \<open>
  C6. A query with an ordering clause, a truthy \<^verbatim>\<open>skip\<close>, a truthy \<^verbatim>\<open>take\<close>, a selection
  or a request for the total count fails the validation, and \<^verbatim>\<open>pull\<close> fails with the
  same error in the state it started in: the log of calls has no new entry (no fetch, no
  store call, no lookup of the checkpoint) and no variable has changed. A query with none
  of these passes the validation, which returns no value.
\<close>

theorem validateQuery_rejects_before_io:
  "if ordering q \<noteq> [] \<or> truthy_num (skip q) \<or> truthy_num (take q) \<or> selections q \<noteq> []
        \<or> includeTotalCount q
   then \<exists>e. validateQuery q = Inl e \<and> pull fuel env q queryId settings st = (Some (Inl e), st)
   else validateQuery q = Inr ()"
  by (auto simp: validateQuery_def pull_def)

text \<open>A query with \<^verbatim>\<open>take(10)\<close> is rejected before any call; the plain query passes.\<close>

theorem validateQuery_rejects_before_io_witness:
  "pull 5 (exEnv exPages []) (exQuery\<lparr>take := Some 10\<rparr>) (Some ''q1'') None exState =
     (Some (Inl TakeNotSupported), exState) \<and>
   validateQuery exQuery = Inr ()"
proof -
  have t: "truthy_num (take (exQuery\<lparr>take := Some 10\<rparr>))" by (simp add: truthy_num_def)
  have v: "validateQuery (exQuery\<lparr>take := Some 10\<rparr>) = Inl TakeNotSupported"
    by (simp add: validateQuery_def exQuery_def truthy_num_def)
  have n: "\<not> (ordering exQuery \<noteq> [] \<or> truthy_num (skip exQuery) \<or> truthy_num (take exQuery) \<or>
              selections exQuery \<noteq> [] \<or> includeTotalCount exQuery)"
    by (simp add: exQuery_def truthy_num_def)
  from validateQuery_rejects_before_io[of "exQuery\<lparr>take := Some 10\<rparr>" 5 "exEnv exPages []"
      "Some ''q1''" None exState] t v
  have w1: "pull 5 (exEnv exPages []) (exQuery\<lparr>take := Some 10\<rparr>) (Some ''q1'') None exState =
     (Some (Inl TakeNotSupported), exState)"
    by auto
  from validateQuery_rejects_before_io[of exQuery 5 "exEnv exPages []" "Some ''q1''" None exState] n
  have w2: "validateQuery exQuery = Inr ()"
    by presburger
  from w1 w2 show ?thesis by simp
qed

subsection \<open>The checkpoint of a vanilla pull\<close>

lemma pullAllPages_vanilla:
  "\<not> truthy_str (pullQueryId st) \<Longrightarrow> pullAllPages fuel env st = (out, st') \<Longrightarrow>
     checkpointWrites (calls st') = checkpointWrites (calls st) \<and> pulltime st' = pulltime st"
proof (induction fuel arbitrary: st)
  case 0
  then show ?case by simp
next
  case (Suc n)
  from Suc.prems(2) show ?case
  proof (cases rule: pullAllPages_round)
    case (page_failed e)
    from pullPage_vanilla[OF Suc.prems(1) page_failed(1)] show ?thesis .
  next
    case complete
    from pullPage_vanilla[OF Suc.prems(1) complete(1)] show ?thesis .
  next
    case (advance_failed recs st1 e)
    from pullPage_vanilla[OF Suc.prems(1) advance_failed(1)]
      updateQueryForNextPage_frame[OF advance_failed(3)]
    show ?thesis by simp
  next
    case (next_page recs st1 st2)
    from pullPage_effect[OF next_page(1)] updateQueryForNextPage_frame[OF next_page(3)]
      Suc.prems(1)
    have "\<not> truthy_str (pullQueryId st2)" by simp
    from Suc.IH[OF this next_page(4)] pullPage_vanilla[OF Suc.prems(1) next_page(1)]
      updateQueryForNextPage_frame[OF next_page(3)]
    show ?thesis by simp
  qed
qed

text \<open>
  C7. A pull with the identity \<^verbatim>\<open>null\<close>, whatever its outcome and however many pages it
  fetches: the log has no new write of a checkpoint row and the pull-time table is as it
  was. \<^verbatim>\<open>onPagePulled\<close> is the identity when the pull manager has no query id.
\<close>

theorem pull_vanilla_writes_no_checkpoint:
  assumes "pull fuel env q None settings st = (out, st')"
  shows "checkpointWrites (calls st') = checkpointWrites (calls st) \<and> pulltime st' = pulltime st \<and>
         onPagePulled (s\<lparr>pullQueryId := None\<rparr>) = s\<lparr>pullQueryId := None\<rparr>"
proof -
  have noop: "onPagePulled (s\<lparr>pullQueryId := None\<rparr>) = s\<lparr>pullQueryId := None\<rparr>"
    by (simp add: onPagePulled_def)
  show ?thesis
  proof (cases "validateQuery q")
    case (Inl e)
    with assms noop show ?thesis by (simp add: pull_def)
  next
    case (Inr u)
    show ?thesis
    proof (cases "pageSizeFromSettings settings")
      case (Inl e)
      with Inr assms noop show ?thesis by (simp add: pull_def)
    next
      case ps: (Inr n)
      let ?st0 = "st\<lparr>pageSize := n, tablePullQuery := copyQuery q, features := [OfflineSync],
                     pullQueryId := None\<rparr>"
      from setupQuery_frame[of env ?st0]
      have s: "calls (setupQuery env ?st0) = calls st"
        "pulltime (setupQuery env ?st0) = pulltime st"
        "\<not> truthy_str (pullQueryId (setupQuery env ?st0))"
        by (simp_all add: truthy_str_def)
      from assms Inr ps have "pullAllPages fuel env (setupQuery env ?st0) = (out, st')"
        by (simp add: pull_def truthy_str_def)
      from pullAllPages_vanilla[OF s(3) this] s noop show ?thesis by simp
    qed
  qed
qed

text \<open>The scenario of the specification as a vanilla pull: three pages, no checkpoint.\<close>

theorem pull_vanilla_writes_no_checkpoint_witness:
  "fst (pull 5 (exEnv exPages []) exQuery None None exState) = Some (Inr ()) \<and>
   fetchedPages (calls (snd (pull 5 (exEnv exPages []) exQuery None None exState))) = exPages \<and>
   checkpointWrites (calls (snd (pull 5 (exEnv exPages []) exQuery None None exState))) = [] \<and>
   pulltime (snd (pull 5 (exEnv exPages []) exQuery None None exState)) = Map.empty"
proof -
  let ?run = "pull 5 (exEnv exPages []) exQuery None None exState"
  have run: "?run = (fst ?run, snd ?run)" by simp
  have out: "fst ?run = Some (Inr ())" by code_simp
  have pages: "fetchedPages (calls (snd ?run)) = exPages" by code_simp
  from pull_vanilla_writes_no_checkpoint[OF run]
  have "checkpointWrites (calls (snd ?run)) = [] \<and> pulltime (snd ?run) = Map.empty"
    by (simp add: exState_def)
  with out pages show ?thesis by simp
qed

subsection \<open>Loading the checkpoint\<close>

text \<open>
  C8, as the code has it. \<^verbatim>\<open>getLastKnownUpdatedAt\<close> always returns a value. Without a
  query id, with the empty string as query id, or with a query id that has no row in the
  pull-time table, the value is \<^verbatim>\<open>new Date(1970, 0, 0)\<close>: midnight of 31 December 1969
  in local time, that is 86400000 milliseconds before the epoch less the offset of local
  time from UTC. With a query id that is not empty and has a row, it is the value stored
  in the row.
\<close>

theorem getLastKnownUpdatedAt_value:
  "fst (getLastKnownUpdatedAt env st) =
     (case pullQueryId st of
        None \<Rightarrow> - 86400000 - localTZA env
      | Some qid \<Rightarrow>
          if qid = [] then - 86400000 - localTZA env
          else (case pulltime st qid of
                  None \<Rightarrow> - 86400000 - localTZA env
                | Some row \<Rightarrow> cp_value row))"
  by (auto simp: getLastKnownUpdatedAt_def date_1970_0_0_def Let_def split: option.splits)

text \<open>A stored row is returned; without a row, in UTC, the value is \<open>-86400000\<close>.\<close>

theorem getLastKnownUpdatedAt_value_witness:
  "fst (getLastKnownUpdatedAt (exEnv [] [])
         (exState\<lparr>pullQueryId := Some ''q1'',
                  pulltime := [''q1'' \<mapsto> \<lparr>cp_id = ''q1'', cp_tableName = ''todoitem'',
                                          cp_value = 2000\<rparr>]\<rparr>)) = 2000 \<and>
   fst (getLastKnownUpdatedAt (exEnv [] []) (exState\<lparr>pullQueryId := Some ''q1''\<rparr>)) = - 86400000 \<and>
   fst (getLastKnownUpdatedAt (exEnv [] []) exState) = - 86400000"
  using getLastKnownUpdatedAt_value[of "exEnv [] []"
      "exState\<lparr>pullQueryId := Some ''q1'',
               pulltime := [''q1'' \<mapsto> \<lparr>cp_id = ''q1'', cp_tableName = ''todoitem'',
                                       cp_value = 2000\<rparr>]\<rparr>"]
    getLastKnownUpdatedAt_value[of "exEnv [] []" "exState\<lparr>pullQueryId := Some ''q1''\<rparr>"]
    getLastKnownUpdatedAt_value[of "exEnv [] []" exState]
  by (simp add: exState_def exEnv_def)

text \<open>
  C8 as it is stated fails. The value returned without a row is not the minimum
  representable timestamp, and it is not the same one hour east of UTC as in UTC; and the
  row stored under the empty string is not returned.
\<close>

theorem getLastKnownUpdatedAt_sentinel_counterexample:
  "fst (getLastKnownUpdatedAt (exEnv [] []) exState) \<noteq> minTimestamp \<and>
   fst (getLastKnownUpdatedAt ((exEnv [] [])\<lparr>localTZA := 3600000\<rparr>) exState) \<noteq>
     fst (getLastKnownUpdatedAt (exEnv [] []) exState) \<and>
   fst (getLastKnownUpdatedAt (exEnv [] [])
         (exState\<lparr>pullQueryId := Some [],
                  pulltime := [[] \<mapsto> \<lparr>cp_id = [], cp_tableName = ''todoitem'',
                                     cp_value = 2000\<rparr>]\<rparr>)) \<noteq> 2000"
  by (simp add: getLastKnownUpdatedAt_def date_1970_0_0_def exState_def exEnv_def
      minTimestamp_def)

subsection \<open>The cursor never goes back\<close>

lemma cursorInv_build: "cursorInv (buildQueryFromLastKnownUpdateAt upd st)"
  by (auto simp: cursorInv_def buildQueryFromLastKnownUpdateAt_def take_q_def orderBy_def
      where_q_def copyQuery_def split: option.splits)

lemma cursorInv_setupQuery: "cursorInv (setupQuery env st)"
  by (simp add: setupQuery_def cursorInv_build split: prod.splits)

text \<open>
  The step that advances the cursor, on a page whose records satisfy the filter of the
  page query.
\<close>

lemma updateQueryForNextPage_cursor:
  assumes inv: "cursorInv st"
    and pg: "list_all (satisfiesCursor (pagePullQuery st)) recs"
    and run: "updateQueryForNextPage recs st = (res, st')"
  shows "lastKnownUpdatedAt st \<le> lastKnownUpdatedAt st' \<and> cursorInv st'"
proof (cases "recs = []")
  case True
  with run inv show ?thesis by (simp add: updateQueryForNextPage_def)
next
  case False
  then have "last recs \<in> set recs" by simp
  with pg have "satisfiesCursor (pagePullQuery st) (last recs)"
    by (simp add: list_all_iff)
  with inv obtain u where u: "updatedAt (last recs) = DateVal u" "lastKnownUpdatedAt st \<le> u"
    by (auto simp: satisfiesCursor_def cursorInv_def split: jsval.splits)
  show ?thesis
  proof (cases "u = lastKnownUpdatedAt st")
    case True
    with run False u have "st' = st\<lparr>pagePullQuery :=
        skip_q (toNumber (skip (pagePullQuery st)) + int (length recs)) (pagePullQuery st)\<rparr>"
      by (simp add: updateQueryForNextPage_def)
    with inv show ?thesis by (simp add: cursorInv_def skip_q_def)
  next
    case neq: False
    with run False u have "st' = buildQueryFromLastKnownUpdateAt u st"
      by (simp add: updateQueryForNextPage_def)
    with u show ?thesis
      by (simp add: cursorInv_build) (simp add: buildQueryFromLastKnownUpdateAt_def)
  qed
qed

lemma pullAllPages_cursor_mono:
  assumes "cursorInv st" and "pullAllPages fuel env st = (out, st')"
    and "calls st' = calls st @ new" and "pagesRespectFilter new"
  shows "lastKnownUpdatedAt st \<le> lastKnownUpdatedAt st' \<and> cursorInv st'"
  using assms
proof (induction fuel arbitrary: st new)
  case 0
  then show ?case by simp
next
  case (Suc n)
  from Suc.prems(2) show ?case
  proof (cases rule: pullAllPages_round)
    case (page_failed e)
    from pullPage_effect[OF page_failed(1)] Suc.prems(1) show ?thesis
      by (simp add: cursorInv_def)
  next
    case complete
    from pullPage_effect[OF complete(1)] Suc.prems(1) show ?thesis
      by (simp add: cursorInv_def)
  next
    case (advance_failed recs st1 e)
    let ?p = "remoteRead env (calls st) (pagePullQuery st)"
    from pullPage_effect[OF advance_failed(1)] obtain cs where
      f1: "lastKnownUpdatedAt st1 = lastKnownUpdatedAt st" "pagePullQuery st1 = pagePullQuery st"
          "calls st1 = calls st @ Read (pagePullQuery st) ?p # cs" "recs = ?p"
      by auto
    from f1 Suc.prems(1) have inv1: "cursorInv st1" by (simp add: cursorInv_def)
    from updateQueryForNextPage_frame[OF advance_failed(3)] f1 Suc.prems(3)
    have "new = Read (pagePullQuery st) ?p # cs" by simp
    with Suc.prems(4) f1 have "list_all (satisfiesCursor (pagePullQuery st1)) recs" by simp
    from updateQueryForNextPage_cursor[OF inv1 this advance_failed(3)] f1 show ?thesis by simp
  next
    case (next_page recs st1 st2)
    let ?p = "remoteRead env (calls st) (pagePullQuery st)"
    from pullPage_effect[OF next_page(1)] obtain cs where
      f1: "lastKnownUpdatedAt st1 = lastKnownUpdatedAt st" "pagePullQuery st1 = pagePullQuery st"
          "calls st1 = calls st @ Read (pagePullQuery st) ?p # cs" "recs = ?p"
      by auto
    from f1 Suc.prems(1) have inv1: "cursorInv st1" by (simp add: cursorInv_def)
    from pullAllPages_calls[OF next_page(4)] obtain new2 where
      new2: "calls st' = calls st2 @ new2" by blast
    with updateQueryForNextPage_frame[OF next_page(3)] f1 Suc.prems(3)
    have "new = Read (pagePullQuery st) ?p # cs @ new2" by simp
    with Suc.prems(4) f1 have pg: "list_all (satisfiesCursor (pagePullQuery st1)) recs"
      and pn: "pagesRespectFilter new2"
      by (simp_all add: pagesRespectFilter_append)
    from updateQueryForNextPage_cursor[OF inv1 pg next_page(3)]
    have m2: "lastKnownUpdatedAt st1 \<le> lastKnownUpdatedAt st2" and inv2: "cursorInv st2"
      by simp_all
    from Suc.IH[OF inv2 next_page(4) new2 pn] m2 f1 show ?thesis by simp
  qed
qed

text \<open>
  C9. Two observations of the same pull, the second after at least as many pages as the
  first (the first may be the pull right after the checkpoint was loaded, \<open>k = 0\<close>). When
  every page that the server returned during the pull satisfies the filter
  \<^verbatim>\<open>updatedAt >= cursor\<close> of the query that fetched it, the cursor at the second
  observation is not smaller than at the first: no step of the pull (processing,
  checkpoint, advance of the cursor) has moved it back.
\<close>

theorem pull_cursor_monotone:
  assumes le: "k \<le> k'"
    and run1: "pull k env q queryId settings st = (out1, st1)"
    and run2: "pull k' env q queryId settings st = (out2, st2)"
    and ok: "pagesRespectFilter (drop (length (calls st)) (calls st2))"
  shows "lastKnownUpdatedAt st1 \<le> lastKnownUpdatedAt st2"
proof (cases "validateQuery q")
  case (Inl e)
  with run1 run2 show ?thesis by (simp add: pull_def)
next
  case (Inr u)
  show ?thesis
  proof (cases "pageSizeFromSettings settings")
    case (Inl e)
    with Inr run1 run2 show ?thesis by (simp add: pull_def)
  next
    case ps: (Inr n)
    define s0 where "s0 = setupQuery env
        (st\<lparr>pageSize := n, tablePullQuery := copyQuery q,
            features := (if truthy_str queryId then [OfflineSync, IncrementalPull]
                         else [OfflineSync]),
            pullQueryId := queryId\<rparr>)"
    have inv0: "cursorInv s0" by (simp add: s0_def cursorInv_setupQuery)
    have "\<exists>c0. calls s0 = calls st @ c0 \<and> pagesRespectFilter c0"
      by (auto simp: s0_def setupQuery_def getLastKnownUpdatedAt_def Let_def
          buildQueryFromLastKnownUpdateAt_def split: option.splits)
    then obtain c0 where c0: "calls s0 = calls st @ c0" "pagesRespectFilter c0" by blast
    from run1 Inr ps have r1: "pullAllPages k env s0 = (out1, st1)"
      by (simp add: pull_def s0_def)
    from run2 Inr ps have r2: "pullAllPages k' env s0 = (out2, st2)"
      by (simp add: pull_def s0_def)
    from le obtain j where j: "k' = k + j" by (auto simp: le_iff_add)
    from pullAllPages_add[OF r1, of j] r2 j
    have split: "(case out1 of None \<Rightarrow> pullAllPages j env st1 | Some r \<Rightarrow> (Some r, st1)) =
        (out2, st2)"
      by simp
    show ?thesis
    proof (cases out1)
      case (Some r)
      with split show ?thesis by simp
    next
      case None
      with split have r3: "pullAllPages j env st1 = (out2, st2)" by simp
      from pullAllPages_calls[OF r1] obtain n1 where n1: "calls st1 = calls s0 @ n1" by blast
      from pullAllPages_calls[OF r3] obtain n2 where n2: "calls st2 = calls st1 @ n2" by blast
      from ok c0 n1 n2 have "pagesRespectFilter (c0 @ n1 @ n2)" by simp
      then have p1: "pagesRespectFilter n1" and p2: "pagesRespectFilter n2"
        by (simp_all add: pagesRespectFilter_append)
      from pullAllPages_cursor_mono[OF inv0 r1 n1 p1] have inv1: "cursorInv st1" by simp
      from pullAllPages_cursor_mono[OF inv1 r3 n2 p2] show ?thesis by simp
    qed
  qed
qed

text \<open>
  The scenario of the specification, incremental, page size 2: the cursor is at the loaded
  value before the first page, at 1000 after one page and at 2000 at the end.
\<close>

theorem pull_cursor_monotone_witness:
  "pagesRespectFilter (drop (length (calls exState))
     (calls (snd (pull 5 (exEnv exPages []) exQuery (Some ''q1'')
                    (Some \<lparr>pageSize_setting = Num 2\<rparr>) exState)))) \<and>
   lastKnownUpdatedAt (snd (pull 0 (exEnv exPages []) exQuery (Some ''q1'')
                              (Some \<lparr>pageSize_setting = Num 2\<rparr>) exState)) = - 86400000 \<and>
   lastKnownUpdatedAt (snd (pull 1 (exEnv exPages []) exQuery (Some ''q1'')
                              (Some \<lparr>pageSize_setting = Num 2\<rparr>) exState)) = 1000 \<and>
   lastKnownUpdatedAt (snd (pull 5 (exEnv exPages []) exQuery (Some ''q1'')
                              (Some \<lparr>pageSize_setting = Num 2\<rparr>) exState)) = 2000 \<and>
   lastKnownUpdatedAt (snd (pull 1 (exEnv exPages []) exQuery (Some ''q1'')
                              (Some \<lparr>pageSize_setting = Num 2\<rparr>) exState))
     \<le> lastKnownUpdatedAt (snd (pull 5 (exEnv exPages []) exQuery (Some ''q1'')
                                   (Some \<lparr>pageSize_setting = Num 2\<rparr>) exState))"
proof -
  let ?pull = "\<lambda>k. pull k (exEnv exPages []) exQuery (Some ''q1'')
                      (Some \<lparr>pageSize_setting = Num 2\<rparr>) exState"
  have ok: "pagesRespectFilter (drop (length (calls exState)) (calls (snd (?pull 5))))"
    by code_simp
  have v0: "lastKnownUpdatedAt (snd (?pull 0)) = - 86400000" by code_simp
  have v1: "lastKnownUpdatedAt (snd (?pull 1)) = 1000" by code_simp
  have v5: "lastKnownUpdatedAt (snd (?pull 5)) = 2000" by code_simp
  have le: "(1::nat) \<le> 5" by simp
  have run1: "?pull 1 = (fst (?pull 1), snd (?pull 1))" by simp
  have run5: "?pull 5 = (fst (?pull 5), snd (?pull 5))" by simp
  from pull_cursor_monotone[OF le run1 run5 ok]
  have "lastKnownUpdatedAt (snd (?pull 1)) \<le> lastKnownUpdatedAt (snd (?pull 5))" .
  with ok v0 v1 v5 show ?thesis by blast
qed

subsection \<open>The checkpoint of an incremental pull\<close>

text \<open>
  With a query id that is not empty, \<^verbatim>\<open>pullPage\<close> ends in one of two ways. When no
  operation is pending for the page it fetched and a record of the page has no boolean
  delete flag, it fails and writes no checkpoint. In every other case it returns the page
  and its last call is the upsert of the checkpoint row.
\<close>

lemma pullPage_incremental:
  assumes qid: "pullQueryId st = Some qid" "qid \<noteq> []"
    and run: "pullPage env st = (res, st')"
  shows "(let page = remoteRead env (calls st) (pagePullQuery st);
              pending = readPagePendingOperations env (calls st @ [Read (pagePullQuery st) page])
                          (table (pagePullQuery st)) page;
              row = \<lparr>cp_id = qid, cp_tableName = table (pagePullQuery st),
                      cp_value = lastKnownUpdatedAt st\<rparr>
          in if pending = [] \<and> (\<exists>r \<in> set page. \<not> isBoolean (deleted r))
             then res = Inl DeletedFlagMissing \<and>
                  checkpointWrites (calls st') = checkpointWrites (calls st) \<and>
                  pulltime st' = pulltime st
             else res = Inr page \<and>
                  (\<exists>cs. calls st' = cs @ [UpsertPulltime row] \<and>
                        checkpointWrites cs = checkpointWrites (calls st)) \<and>
                  pulltime st' qid = Some row)"
proof -
  let ?p = "remoteRead env (calls st) (pagePullQuery st)"
  let ?t = "table (pagePullQuery st)"
  let ?st1 = "st\<lparr>calls := calls st @ [Read (pagePullQuery st) ?p]\<rparr>"
  let ?pend = "readPagePendingOperations env (calls st @ [Read (pagePullQuery st) ?p]) ?t ?p"
  let ?row = "\<lparr>cp_id = qid, cp_tableName = ?t, cp_value = lastKnownUpdatedAt st\<rparr>"
  let ?st2 = "?st1\<lparr>calls := calls ?st1 @ [ReadPagePendingOperations ?t ?p ?pend]\<rparr>"
  show ?thesis
  proof (cases "?pend = [] \<and> (\<exists>r \<in> set ?p. \<not> isBoolean (deleted r))")
    case True
    then have "processPulledRecords env ?t ?p ?st1 = (Inl DeletedFlagMissing, ?st2)"
      by (auto simp: processPulledRecords_def processAllRecords_def Let_def
          processRecordsLoop_no_pending list_all_iff)
    with run have "res = Inl DeletedFlagMissing" "st' = ?st2"
      by (simp_all add: pullPage_def Let_def)
    with True show ?thesis by (simp add: Let_def checkpointWrites_append)
  next
    case False
    then have "\<exists>ds us. processRecordsLoop ?pend ?p [] [] = Inr (ds, us)"
      by (cases "?pend = []")
        (auto simp: processRecordsLoop_no_pending processRecordsLoop_pending list_all_iff)
    then obtain ds us where l: "processRecordsLoop ?pend ?p [] [] = Inr (ds, us)" by blast
    let ?st3 = "?st2\<lparr>calls := calls ?st2 @ [Del ?t ds, Upsert ?t us]\<rparr>"
    from l have "processPulledRecords env ?t ?p ?st1 = (Inr (), ?st3)"
      by (simp add: processPulledRecords_def processAllRecords_def Let_def)
    with run have r: "res = Inr ?p" "st' = onPagePulled ?st3"
      by (simp_all add: pullPage_def Let_def)
    from qid have "onPagePulled ?st3 =
        ?st3\<lparr>pulltime := (pulltime st)(qid \<mapsto> ?row),
              calls := calls ?st3 @ [UpsertPulltime ?row]\<rparr>"
      by (simp add: onPagePulled_def Let_def)
    with r False show ?thesis
      by (simp add: Let_def checkpointWrites_append)
  qed
qed

lemma pullPage_empty:
  assumes "remoteRead env (calls st) (pagePullQuery st) = []"
  shows "pullPage env st =
     (Inr [], onPagePulled (st\<lparr>calls := calls st @
        [Read (pagePullQuery st) [],
         ReadPagePendingOperations (table (pagePullQuery st)) []
           (readPagePendingOperations env (calls st @ [Read (pagePullQuery st) []])
              (table (pagePullQuery st)) []),
         Del (table (pagePullQuery st)) [], Upsert (table (pagePullQuery st)) []]\<rparr>))"
  using assms
  by (simp add: pullPage_def Let_def processPulledRecords_def processAllRecords_def)

lemma pull_first_page_empty:
  assumes qid: "qid \<noteq> []"
    and valid: "validateQuery q = Inr ()" and ps: "pageSizeFromSettings settings = Inr n"
    and run: "pull (Suc k) env q (Some qid) settings st = (out, st')"
    and first: "fetchedPages (drop (length (calls st)) (calls st')) = [] # rest"
  shows "out = Some (Inr ()) \<and> rest = [] \<and>
         pulltime st' qid =
           Some \<lparr>cp_id = qid, cp_tableName = table q,
                 cp_value = fst (getLastKnownUpdatedAt env (st\<lparr>pullQueryId := Some qid\<rparr>))\<rparr> \<and>
         checkpointWrites (drop (length (calls st)) (calls st')) =
           [\<lparr>cp_id = qid, cp_tableName = table q,
             cp_value = fst (getLastKnownUpdatedAt env (st\<lparr>pullQueryId := Some qid\<rparr>))\<rparr>]"
proof -
  define s0 where "s0 = setupQuery env
      (st\<lparr>pageSize := n, tablePullQuery := copyQuery q,
          features := [OfflineSync, IncrementalPull], pullQueryId := Some qid\<rparr>)"
  let ?v = "fst (getLastKnownUpdatedAt env (st\<lparr>pullQueryId := Some qid\<rparr>))"
  from qid have s0: "calls s0 = calls st @ [Lookup qid]" "lastKnownUpdatedAt s0 = ?v"
    "table (pagePullQuery s0) = table q" "pullQueryId s0 = Some qid"
    by (auto simp: s0_def setupQuery_def getLastKnownUpdatedAt_def Let_def
        buildQueryFromLastKnownUpdateAt_def take_q_def orderBy_def where_q_def copyQuery_def
        split: option.splits)
  from run valid ps qid have r: "pullAllPages (Suc k) env s0 = (out, st')"
    by (simp add: pull_def s0_def truthy_str_def)
  let ?p = "remoteRead env (calls s0) (pagePullQuery s0)"
  from pullAllPages_calls_first[OF r] obtain new where
    new: "calls st' = calls s0 @ Read (pagePullQuery s0) ?p # new" by blast
  with s0 first have p: "?p = []" by (simp add: fetchedPages_append)
  note pe = pullPage_empty[OF p]
  from r pe have out: "out = Some (Inr ())" and st': "st' = snd (pullPage env s0)"
    by (simp_all add: isPullComplete_def)
  from st' pe s0 qid have
    c: "calls st' = calls st @ [Lookup qid, Read (pagePullQuery s0) [],
         ReadPagePendingOperations (table q) []
           (readPagePendingOperations env (calls s0 @ [Read (pagePullQuery s0) []]) (table q) []),
         Del (table q) [], Upsert (table q) [],
         UpsertPulltime \<lparr>cp_id = qid, cp_tableName = table q, cp_value = ?v\<rparr>]"
    and pt: "pulltime st' qid = Some \<lparr>cp_id = qid, cp_tableName = table q, cp_value = ?v\<rparr>"
    by (simp_all add: onPagePulled_def Let_def)
  from c first have "rest = []" by simp
  with out pt c show ?thesis by simp
qed

text \<open>
  C10, as the code has it. When the query id is a string that is not empty, every page
  that \<^verbatim>\<open>pullPage\<close> fetches, empty or not, is followed by the upsert of the checkpoint
  row, unless processing the page fails: the upsert is the last call of \<^verbatim>\<open>pullPage\<close>,
  the row is then in the pull-time table, and its value is the cursor the page was
  fetched with. Processing fails exactly on a page for which no operation is pending and
  in which a record has no boolean delete flag; such a page is followed by no write of a
  checkpoint row, and the pull-time table stays as it was. In particular a pull with
  such a query id whose first fetched page is empty ends with success after that page
  and has written one checkpoint row, whose value is the one
  \<^verbatim>\<open>getLastKnownUpdatedAt\<close> loaded at the start.
\<close>

theorem pullPage_incremental_checkpoint:
  "(pullQueryId st = Some qid \<and> qid \<noteq> [] \<and> pullPage env st = (res, st') \<longrightarrow>
      (let page = remoteRead env (calls st) (pagePullQuery st);
           pending = readPagePendingOperations env (calls st @ [Read (pagePullQuery st) page])
                       (table (pagePullQuery st)) page;
           row = \<lparr>cp_id = qid, cp_tableName = table (pagePullQuery st),
                   cp_value = lastKnownUpdatedAt st\<rparr>
       in if pending = [] \<and> (\<exists>r \<in> set page. \<not> isBoolean (deleted r))
          then res = Inl DeletedFlagMissing \<and>
               checkpointWrites (calls st') = checkpointWrites (calls st) \<and>
               pulltime st' = pulltime st
          else res = Inr page \<and>
               (\<exists>cs. calls st' = cs @ [UpsertPulltime row] \<and>
                     checkpointWrites cs = checkpointWrites (calls st)) \<and>
               pulltime st' qid = Some row)) \<and>
   (qid \<noteq> [] \<and> validateQuery q = Inr () \<and> pageSizeFromSettings settings = Inr n \<and>
    pull (Suc k) env q (Some qid) settings st0 = (out, st1) \<and>
    fetchedPages (drop (length (calls st0)) (calls st1)) = [] # rest \<longrightarrow>
      out = Some (Inr ()) \<and> rest = [] \<and>
      pulltime st1 qid =
        Some \<lparr>cp_id = qid, cp_tableName = table q,
              cp_value = fst (getLastKnownUpdatedAt env (st0\<lparr>pullQueryId := Some qid\<rparr>))\<rparr> \<and>
      checkpointWrites (drop (length (calls st0)) (calls st1)) =
        [\<lparr>cp_id = qid, cp_tableName = table q,
          cp_value = fst (getLastKnownUpdatedAt env (st0\<lparr>pullQueryId := Some qid\<rparr>))\<rparr>])"
  using pullPage_incremental[of st qid env res st']
    pull_first_page_empty[of qid q settings n k env st0 out st1 rest]
  by blast

text \<open>
  The first page of the scenario, fetched with the query id \<^verbatim>\<open>q1\<close>, and the pull with
  that query id from a server without records: each writes the row with the value loaded
  at the start, which without an earlier checkpoint is \<open>-86400000\<close> in UTC. The page
  whose second record has no delete flag, fetched with the same query id: it fails and no
  row is written.
\<close>

theorem pullPage_incremental_checkpoint_witness:
  "fst (pullPage (exEnv exPages [])
          (setupQuery (exEnv exPages []) (exState\<lparr>pageSize := 2, pullQueryId := Some ''q1''\<rparr>))) =
     Inr [exRecord 1 (Bool False) 1000, exRecord 2 (Bool False) 1000] \<and>
   pulltime (snd (pullPage (exEnv exPages [])
          (setupQuery (exEnv exPages []) (exState\<lparr>pageSize := 2, pullQueryId := Some ''q1''\<rparr>))))
       ''q1'' =
     Some \<lparr>cp_id = ''q1'', cp_tableName = ''todoitem'', cp_value = - 86400000\<rparr> \<and>
   fst (pullPage (exEnv [exFlaglessPage] [])
          (setupQuery (exEnv [exFlaglessPage] [])
             (exState\<lparr>pageSize := 2, pullQueryId := Some ''q1''\<rparr>))) =
     Inl DeletedFlagMissing \<and>
   checkpointWrites (calls (snd (pullPage (exEnv [exFlaglessPage] [])
          (setupQuery (exEnv [exFlaglessPage] [])
             (exState\<lparr>pageSize := 2, pullQueryId := Some ''q1''\<rparr>))))) = [] \<and>
   fst (pull (Suc 2) (exEnv [] []) exQuery (Some ''q1'') None exState) = Some (Inr ()) \<and>
   fetchedPages (calls (snd (pull (Suc 2) (exEnv [] []) exQuery (Some ''q1'') None exState))) =
     [[]] \<and>
   pulltime (snd (pull (Suc 2) (exEnv [] []) exQuery (Some ''q1'') None exState)) ''q1'' =
     Some \<lparr>cp_id = ''q1'', cp_tableName = ''todoitem'', cp_value = - 86400000\<rparr> \<and>
   checkpointWrites (calls (snd (pull (Suc 2) (exEnv [] []) exQuery (Some ''q1'') None exState))) =
     [\<lparr>cp_id = ''q1'', cp_tableName = ''todoitem'', cp_value = - 86400000\<rparr>]"
proof -
  let ?s = "setupQuery (exEnv exPages []) (exState\<lparr>pageSize := 2, pullQueryId := Some ''q1''\<rparr>)"
  let ?page = "pullPage (exEnv exPages []) ?s"
  let ?sf = "setupQuery (exEnv [exFlaglessPage] [])
               (exState\<lparr>pageSize := 2, pullQueryId := Some ''q1''\<rparr>)"
  let ?failed = "pullPage (exEnv [exFlaglessPage] []) ?sf"
  let ?run = "pull (Suc 2) (exEnv [] []) exQuery (Some ''q1'') None exState"
  have id: "pullQueryId ?s = Some ''q1''" "pullQueryId ?sf = Some ''q1''" by code_simp+
  have ne: "''q1'' \<noteq> []" by simp
  have page: "?page = (fst ?page, snd ?page)" and failed: "?failed = (fst ?failed, snd ?failed)"
    by simp_all
  have fetched: "remoteRead (exEnv exPages []) (calls ?s) (pagePullQuery ?s) =
      [exRecord 1 (Bool False) 1000, exRecord 2 (Bool False) 1000]"
    "remoteRead (exEnv [exFlaglessPage] []) (calls ?sf) (pagePullQuery ?sf) = exFlaglessPage"
    by code_simp+
  have flags: "\<not> (\<exists>r \<in> set [exRecord 1 (Bool False) 1000, exRecord 2 (Bool False) 1000].
                 \<not> isBoolean (deleted r))"
    "\<exists>r \<in> set exFlaglessPage. \<not> isBoolean (deleted r)"
    by (simp_all add: exRecord_def exFlaglessPage_def isBoolean_def)
  have pending: "\<And>h t p. readPagePendingOperations (exEnv [exFlaglessPage] []) h t p = []"
    by (simp add: exEnv_def)
  have s: "table (pagePullQuery ?s) = ''todoitem''" "lastKnownUpdatedAt ?s = - 86400000"
    "checkpointWrites (calls ?sf) = []"
    by code_simp+
  have valid: "validateQuery exQuery = Inr ()" by code_simp
  have size: "pageSizeFromSettings None = Inr 50" by code_simp
  have run: "?run = (fst ?run, snd ?run)" by simp
  have first: "fetchedPages (drop (length (calls exState)) (calls (snd ?run))) = [] # []"
    by code_simp
  have load: "fst (getLastKnownUpdatedAt (exEnv [] []) (exState\<lparr>pullQueryId := Some ''q1''\<rparr>)) =
      - 86400000"
    by code_simp
  have tab: "table exQuery = ''todoitem''" by code_simp
  have start: "calls exState = []" by code_simp
  note page_inst = pullPage_incremental_checkpoint[where st = ?s and qid = "''q1''"
      and env = "exEnv exPages []" and res = "fst ?page" and st' = "snd ?page"]
  note failed_inst = pullPage_incremental_checkpoint[where st = ?sf and qid = "''q1''"
      and env = "exEnv [exFlaglessPage] []" and res = "fst ?failed" and st' = "snd ?failed"]
  note pull_inst = pullPage_incremental_checkpoint[where qid = "''q1''" and q = exQuery
      and settings = None and n = 50 and k = 2 and env = "exEnv [] []" and ?st0.0 = exState
      and out = "fst ?run" and ?st1.0 = "snd ?run" and rest = "[]"]
  from page_inst id(1) ne page
  have "let page = remoteRead (exEnv exPages []) (calls ?s) (pagePullQuery ?s);
            pending = readPagePendingOperations (exEnv exPages [])
                        (calls ?s @ [Read (pagePullQuery ?s) page]) (table (pagePullQuery ?s)) page;
            row = \<lparr>cp_id = ''q1'', cp_tableName = table (pagePullQuery ?s),
                    cp_value = lastKnownUpdatedAt ?s\<rparr>
        in if pending = [] \<and> (\<exists>r \<in> set page. \<not> isBoolean (deleted r))
           then fst ?page = Inl DeletedFlagMissing \<and>
                checkpointWrites (calls (snd ?page)) = checkpointWrites (calls ?s) \<and>
                pulltime (snd ?page) = pulltime ?s
           else fst ?page = Inr page \<and>
                (\<exists>cs. calls (snd ?page) = cs @ [UpsertPulltime row] \<and>
                      checkpointWrites cs = checkpointWrites (calls ?s)) \<and>
                pulltime (snd ?page) ''q1'' = Some row"
    by blast
  with fetched(1) flags(1) s
  have w1: "fst ?page = Inr [exRecord 1 (Bool False) 1000, exRecord 2 (Bool False) 1000] \<and>
      pulltime (snd ?page) ''q1'' =
        Some \<lparr>cp_id = ''q1'', cp_tableName = ''todoitem'', cp_value = - 86400000\<rparr>"
    by (simp add: Let_def)
  from failed_inst id(2) ne failed
  have "let page = remoteRead (exEnv [exFlaglessPage] []) (calls ?sf) (pagePullQuery ?sf);
            pending = readPagePendingOperations (exEnv [exFlaglessPage] [])
                        (calls ?sf @ [Read (pagePullQuery ?sf) page]) (table (pagePullQuery ?sf)) page;
            row = \<lparr>cp_id = ''q1'', cp_tableName = table (pagePullQuery ?sf),
                    cp_value = lastKnownUpdatedAt ?sf\<rparr>
        in if pending = [] \<and> (\<exists>r \<in> set page. \<not> isBoolean (deleted r))
           then fst ?failed = Inl DeletedFlagMissing \<and>
                checkpointWrites (calls (snd ?failed)) = checkpointWrites (calls ?sf) \<and>
                pulltime (snd ?failed) = pulltime ?sf
           else fst ?failed = Inr page \<and>
                (\<exists>cs. calls (snd ?failed) = cs @ [UpsertPulltime row] \<and>
                      checkpointWrites cs = checkpointWrites (calls ?sf)) \<and>
                pulltime (snd ?failed) ''q1'' = Some row"
    by blast
  with fetched(2) flags(2) pending s(3)
  have wf: "fst ?failed = Inl DeletedFlagMissing \<and> checkpointWrites (calls (snd ?failed)) = []"
    by (simp add: Let_def)
  from pull_inst ne valid size run first load tab start
  have w2: "fst ?run = Some (Inr ()) \<and>
      pulltime (snd ?run) ''q1'' =
        Some \<lparr>cp_id = ''q1'', cp_tableName = ''todoitem'', cp_value = - 86400000\<rparr> \<and>
      checkpointWrites (calls (snd ?run)) =
        [\<lparr>cp_id = ''q1'', cp_tableName = ''todoitem'', cp_value = - 86400000\<rparr>]"
    by simp
  from first start have w3: "fetchedPages (calls (snd ?run)) = [[]]" by simp
  from w1 wf w2 w3 show ?thesis by simp
qed

text \<open>
  C10 as it is stated fails. The empty string is a query id that is not \<^verbatim>\<open>null\<close>: the
  pull with it fetches the empty page, ends with success and writes no checkpoint row.
  And the pull with the query id \<^verbatim>\<open>q1\<close> that fetches the page whose second record has
  no delete flag fails on that page: the page is fetched and no checkpoint row follows.
\<close>

theorem pull_empty_identity_counterexample:
  "fst (pull 3 (exEnv [] []) exQuery (Some []) None exState) = Some (Inr ()) \<and>
   fetchedPages (calls (snd (pull 3 (exEnv [] []) exQuery (Some []) None exState))) = [[]] \<and>
   checkpointWrites (calls (snd (pull 3 (exEnv [] []) exQuery (Some []) None exState))) = [] \<and>
   pulltime (snd (pull 3 (exEnv [] []) exQuery (Some []) None exState)) [] = None \<and>
   fst (pull 3 (exEnv [exFlaglessPage] []) exQuery (Some ''q1'') None exState) =
     Some (Inl DeletedFlagMissing) \<and>
   fetchedPages (calls (snd (pull 3 (exEnv [exFlaglessPage] []) exQuery (Some ''q1'') None
                               exState))) = [exFlaglessPage] \<and>
   checkpointWrites (calls (snd (pull 3 (exEnv [exFlaglessPage] []) exQuery (Some ''q1'') None
                                   exState))) = [] \<and>
   pulltime (snd (pull 3 (exEnv [exFlaglessPage] []) exQuery (Some ''q1'') None exState))
     ''q1'' = None"
  by code_simp

end
